theory Spec2Isabelle
  imports Complex_Main
begin

section \<open>Floating-point values\<close>

text \<open>
  The program computes on Python and numpy floats. A float is modelled as a finite real
  number, one of the two infinities, or NaN. Arithmetic on finite values is exact (rounding
  and signed zeros are not modelled); on the special values it follows IEEE 754 as numpy
  applies it: a comparison with NaN is false, \<open>inf - inf\<close> and \<open>0 * inf\<close> are NaN, and a
  division of arrays by zero gives an infinity or NaN instead of raising.
\<close>

datatype pyfloat = NaN | NInf | Fin real | PInf

fun is_nan :: "pyfloat \<Rightarrow> bool" where
  "is_nan NaN = True"
| "is_nan _ = False"

fun is_finite :: "pyfloat \<Rightarrow> bool" where
  "is_finite (Fin x) = True"
| "is_finite _ = False"

fun flt :: "pyfloat \<Rightarrow> pyfloat \<Rightarrow> bool" where
  "flt (Fin x) (Fin y) = (x < y)"
| "flt NInf (Fin y) = True"
| "flt NInf PInf = True"
| "flt (Fin x) PInf = True"
| "flt _ _ = False"

fun fle :: "pyfloat \<Rightarrow> pyfloat \<Rightarrow> bool" where
  "fle (Fin x) (Fin y) = (x \<le> y)"
| "fle NInf NInf = True"
| "fle NInf (Fin y) = True"
| "fle NInf PInf = True"
| "fle (Fin x) PInf = True"
| "fle PInf PInf = True"
| "fle _ _ = False"

definition fgt :: "pyfloat \<Rightarrow> pyfloat \<Rightarrow> bool" where
  "fgt a b = flt b a"

definition fge :: "pyfloat \<Rightarrow> pyfloat \<Rightarrow> bool" where
  "fge a b = fle b a"

fun fneg :: "pyfloat \<Rightarrow> pyfloat" where
  "fneg NaN = NaN"
| "fneg NInf = PInf"
| "fneg (Fin x) = Fin (- x)"
| "fneg PInf = NInf"

fun fabs :: "pyfloat \<Rightarrow> pyfloat" where
  "fabs NaN = NaN"
| "fabs NInf = PInf"
| "fabs (Fin x) = Fin \<bar>x\<bar>"
| "fabs PInf = PInf"

fun fadd :: "pyfloat \<Rightarrow> pyfloat \<Rightarrow> pyfloat" where
  "fadd (Fin x) (Fin y) = Fin (x + y)"
| "fadd NaN _ = NaN"
| "fadd _ NaN = NaN"
| "fadd PInf NInf = NaN"
| "fadd NInf PInf = NaN"
| "fadd PInf _ = PInf"
| "fadd _ PInf = PInf"
| "fadd NInf _ = NInf"
| "fadd _ NInf = NInf"

definition fsub :: "pyfloat \<Rightarrow> pyfloat \<Rightarrow> pyfloat" where
  "fsub a b = fadd a (fneg b)"

fun fsign :: "pyfloat \<Rightarrow> real" where
  "fsign NaN = 0"
| "fsign NInf = - 1"
| "fsign (Fin x) = sgn x"
| "fsign PInf = 1"

definition inf_of_sign :: "real \<Rightarrow> pyfloat" where
  "inf_of_sign s = (if 0 < s then PInf else if s < 0 then NInf else NaN)"

fun fmul :: "pyfloat \<Rightarrow> pyfloat \<Rightarrow> pyfloat" where
  "fmul (Fin x) (Fin y) = Fin (x * y)"
| "fmul NaN _ = NaN"
| "fmul _ NaN = NaN"
| "fmul a b = inf_of_sign (fsign a * fsign b)"

fun fdiv :: "pyfloat \<Rightarrow> pyfloat \<Rightarrow> pyfloat" where
  "fdiv (Fin x) (Fin y) = (if y = 0 then inf_of_sign (sgn x) else Fin (x / y))"
| "fdiv NaN _ = NaN"
| "fdiv _ NaN = NaN"
| "fdiv (Fin x) _ = Fin 0"
| "fdiv a (Fin y) = inf_of_sign (fsign a * (if 0 \<le> y then 1 else - 1))"
| "fdiv _ _ = NaN"

text \<open>
  Python's builtin \<open>min\<close> and \<open>max\<close> keep the first argument unless a later one compares
  strictly smaller (larger), so a NaN is kept or skipped according to its position.
\<close>

definition pymin2 :: "pyfloat \<Rightarrow> pyfloat \<Rightarrow> pyfloat" where
  "pymin2 a b = (if flt b a then b else a)"

definition pymax2 :: "pyfloat \<Rightarrow> pyfloat \<Rightarrow> pyfloat" where
  "pymax2 a b = (if fgt b a then b else a)"

definition pymin3 :: "pyfloat \<Rightarrow> pyfloat \<Rightarrow> pyfloat \<Rightarrow> pyfloat" where
  "pymin3 a b c = pymin2 (pymin2 a b) c"

definition pymax3 :: "pyfloat \<Rightarrow> pyfloat \<Rightarrow> pyfloat \<Rightarrow> pyfloat" where
  "pymax3 a b c = pymax2 (pymax2 a b) c"

datatype py_error = IndexError | KeyError | TypeError | ValueError

section \<open>Indicator library\<close>

subsection \<open>Series operations of the data-frame library\<close>

text \<open>
  A pandas series is a list of floats. \<open>Series.diff()\<close> subtracts the previous element and
  is NaN at the first position.
\<close>

fun pd_diff :: "pyfloat list \<Rightarrow> pyfloat list" where
  "pd_diff [] = []"
| "pd_diff (x # xs) = NaN # map (\<lambda>(cur, prev). fsub cur prev) (zip xs (x # xs))"

text \<open>
  \<open>Series.ewm(span=N, adjust=False).mean()\<close>, with the library's defaults
  (\<open>ignore_na=False\<close>, one observation suffices): the running average \<open>weighted\<close> starts at
  the first observation; an observation \<open>cur\<close> replaces it by
  \<open>(old_wt * weighted + alpha * cur) / (old_wt + alpha)\<close> where \<open>old_wt\<close> is \<open>1 - alpha\<close> raised to
  the number of positions since the last observation; a NaN input repeats the running average.
  \<open>alpha = 2 / (span + 1)\<close>, and a span below 1 is refused with a ValueError.
\<close>

fun ewm_loop :: "real \<Rightarrow> pyfloat \<Rightarrow> real \<Rightarrow> pyfloat list \<Rightarrow> pyfloat list" where
  "ewm_loop alpha weighted old_wt [] = []"
| "ewm_loop alpha weighted old_wt (cur # xs) =
     (if \<not> is_nan weighted then
        (if \<not> is_nan cur then
           (let old_wt' = old_wt * (1 - alpha);
                weighted' =
                  (if weighted \<noteq> cur
                   then fdiv (fadd (fmul (Fin old_wt') weighted) (fmul (Fin alpha) cur))
                          (Fin (old_wt' + alpha))
                   else weighted)
            in weighted' # ewm_loop alpha weighted' 1 xs)
         else weighted # ewm_loop alpha weighted (old_wt * (1 - alpha)) xs)
      else if \<not> is_nan cur then cur # ewm_loop alpha cur old_wt xs
      else weighted # ewm_loop alpha weighted old_wt xs)"

definition ewm_mean :: "int \<Rightarrow> pyfloat list \<Rightarrow> py_error + pyfloat list" where
  "ewm_mean spn xs =
     (if spn < 1 then Inl ValueError
      else (case xs of
              [] \<Rightarrow> Inr []
            | x # rest \<Rightarrow> Inr (x # ewm_loop (2 / (real_of_int spn + 1)) x 1 rest)))"

text \<open>
  \<open>Series.rolling(n).mean()\<close>: NaN until \<open>n\<close> values are in the window, then the mean of the
  last \<open>n\<close> values (NaN as soon as one of them is NaN).
\<close>

definition rolling_mean :: "nat \<Rightarrow> pyfloat list \<Rightarrow> pyfloat list" where
  "rolling_mean n xs =
     map (\<lambda>i. if i + 1 < n then NaN
              else fdiv (foldl fadd (Fin 0) (take n (drop (i + 1 - n) xs))) (Fin (real n)))
       [0..<length xs]"

subsection \<open>True Strength Index\<close>

definition calculate_tsi :: "pyfloat list \<Rightarrow> int \<Rightarrow> int \<Rightarrow> py_error + pyfloat list" where
  "calculate_tsi close fast slow =
     (let momentum = pd_diff close in
      case ewm_mean slow momentum of Inl e \<Rightarrow> Inl e | Inr ema_slow \<Rightarrow>
      (case ewm_mean fast ema_slow of Inl e \<Rightarrow> Inl e | Inr ema_fast \<Rightarrow>
      (case ewm_mean slow (map fabs momentum) of Inl e \<Rightarrow> Inl e | Inr abs_ema_slow \<Rightarrow>
      (case ewm_mean fast abs_ema_slow of Inl e \<Rightarrow> Inl e | Inr abs_ema_fast \<Rightarrow>
         Inr (map (\<lambda>(a, b). fdiv (fmul (Fin 100) a) b) (zip ema_fast abs_ema_fast))))))"

subsection \<open>Parabolic SAR\<close>

text \<open>
  The local variables of \<open>calculate_parabolic_sar\<close>. The series \<open>sar\<close> is created with the
  length of \<open>high\<close>, filled with NaN, and assigned by position. The loop body is \<open>psar_body\<close>;
  reading \<open>low\<close> beyond its end raises IndexError.
\<close>

record psar_vars =
  sar :: "pyfloat list"
  af :: pyfloat
  uptrend :: bool
  ep :: pyfloat

definition psar_body ::
  "pyfloat list \<Rightarrow> pyfloat list \<Rightarrow> pyfloat \<Rightarrow> pyfloat \<Rightarrow> nat \<Rightarrow> psar_vars \<Rightarrow> py_error + psar_vars" where
  "psar_body high low af_start af_max i v =
     (if uptrend v then
        (if length low \<le> i then Inl IndexError
         else
           (let s1 = fadd (sar v ! (i - 1)) (fmul (af v) (fsub (ep v) (sar v ! (i - 1))));
                s2 = pymin3 s1 (low ! (i - 1)) (if 2 \<le> i then low ! (i - 2) else low ! (i - 1))
            in if flt (low ! i) s2
               then Inr (v\<lparr>sar := (sar v)[i := ep v], af := af_start, uptrend := False,
                          ep := low ! i\<rparr>)
               else if fgt (high ! i) (ep v)
               then Inr (v\<lparr>sar := (sar v)[i := s2], af := pymin2 (fadd (af v) af_start) af_max,
                          ep := high ! i\<rparr>)
               else Inr (v\<lparr>sar := (sar v)[i := s2]\<rparr>)))
      else
        (let s1 = fadd (sar v ! (i - 1)) (fmul (af v) (fsub (ep v) (sar v ! (i - 1))));
             s2 = pymax3 s1 (high ! (i - 1)) (if 2 \<le> i then high ! (i - 2) else high ! (i - 1))
         in if fgt (high ! i) s2
            then Inr (v\<lparr>sar := (sar v)[i := ep v], af := af_start, uptrend := True,
                       ep := high ! i\<rparr>)
            else if length low \<le> i then Inl IndexError
            else if flt (low ! i) (ep v)
            then Inr (v\<lparr>sar := (sar v)[i := s2], af := pymin2 (fadd (af v) af_start) af_max,
                       ep := low ! i\<rparr>)
            else Inr (v\<lparr>sar := (sar v)[i := s2]\<rparr>)))"

function psar_loop ::
  "pyfloat list \<Rightarrow> pyfloat list \<Rightarrow> pyfloat \<Rightarrow> pyfloat \<Rightarrow> nat \<Rightarrow> psar_vars \<Rightarrow> py_error + psar_vars" where
  "psar_loop high low af_start af_max i v =
     (if i < length high
      then (case psar_body high low af_start af_max i v of
              Inl e \<Rightarrow> Inl e
            | Inr v' \<Rightarrow> psar_loop high low af_start af_max (Suc i) v')
      else Inr v)"
  by pat_completeness auto
termination
  by (relation "measure (\<lambda>(high, low, af_start, af_max, i, v). length high - i)") auto

definition calculate_parabolic_sar ::
  "pyfloat list \<Rightarrow> pyfloat list \<Rightarrow> pyfloat \<Rightarrow> pyfloat \<Rightarrow> py_error + pyfloat list" where
  "calculate_parabolic_sar high low af_start af_max =
     (case low of
        [] \<Rightarrow> Inl IndexError
      | l0 # _ \<Rightarrow>
          (case high of
             [] \<Rightarrow> Inl IndexError
           | h0 # _ \<Rightarrow>
               (case psar_loop high low af_start af_max 1
                       \<lparr>sar = (replicate (length high) NaN)[0 := h0], af = af_start,
                        uptrend = True, ep = l0\<rparr> of
                  Inl e \<Rightarrow> Inl e
                | Inr v \<Rightarrow> Inr (sar v))))"

section \<open>The trading bot\<close>

subsection \<open>Configuration\<close>

definition TIMEFRAME_MINUTES :: nat where
  "TIMEFRAME_MINUTES = 5"

definition MA_PERIOD :: nat where
  "MA_PERIOD = 70"

definition TSI_FAST :: int where
  "TSI_FAST = 13"

definition TSI_SLOW :: int where
  "TSI_SLOW = 25"

definition TSI_THRESHOLD :: pyfloat where
  "TSI_THRESHOLD = Fin (- 10)"

definition PSAR_AF :: pyfloat where
  "PSAR_AF = Fin (2 / 100)"

definition PSAR_MAX_AF :: pyfloat where
  "PSAR_MAX_AF = Fin (2 / 10)"

subsection \<open>State\<close>

record datetime =
  dt_year :: nat
  dt_month :: nat
  dt_day :: nat
  dt_hour :: nat
  dt_minute :: nat
  dt_second :: nat
  dt_microsecond :: nat

text \<open>A row of the data frame \<open>bars_5min\<close>: the index and the price columns.\<close>

record bar =
  b_start :: "datetime option"
  b_open :: pyfloat
  b_high :: pyfloat
  b_low :: pyfloat
  b_close :: pyfloat
  b_volume :: pyfloat

text \<open>The dictionary \<open>current_bar\<close>; its price entries are None until the first tick.\<close>

record current_bar_dict =
  cb_open :: "pyfloat option"
  cb_high :: "pyfloat option"
  cb_low :: "pyfloat option"
  cb_close :: "pyfloat option"
  cb_volume :: pyfloat

record TSITradingBot =
  bars_5min :: "bar list"
  current_bar :: current_bar_dict
  bar_start_time :: "datetime option"
  in_position :: bool
  position_entry_price :: "pyfloat option"
  last_price :: "pyfloat option"
  price_was_above_ma :: "bool option"
  current_tsi :: "pyfloat option"
  current_ma70 :: "pyfloat option"
  ma70_slope :: "pyfloat option"
  current_sar :: "pyfloat option"

text \<open>The state after \<open>__init__\<close>.\<close>

definition bot_init :: TSITradingBot where
  "bot_init =
     \<lparr>bars_5min = [],
      current_bar = \<lparr>cb_open = None, cb_high = None, cb_low = None, cb_close = None,
                     cb_volume = Fin 0\<rparr>,
      bar_start_time = None, in_position = False, position_entry_price = None,
      last_price = None, price_was_above_ma = None, current_tsi = None,
      current_ma70 = None, ma70_slope = None, current_sar = None\<rparr>"

subsection \<open>The outside world\<close>

text \<open>
  What the broker reports for an order one second after it was placed
  (\<open>trade.orderStatus\<close>), and what a handler does that can be seen from outside: a call of
  \<open>_enter_short(price)\<close>, which places the SELL market order, a call of \<open>_exit_short()\<close>,
  which places the BUY market order, and the realized P&L that \<open>_exit_short\<close> logs.
\<close>

record order_status =
  status :: string
  avgFillPrice :: pyfloat

datatype event = ENTRY_SHORT pyfloat | EXIT_SHORT | PNL pyfloat

record ticker =
  tk_last :: "pyfloat option"

subsection \<open>Indicators over the bar series\<close>

text \<open>
  \<open>_update_indicators\<close>. The series have the length of \<open>bars_5min\<close>, which is at least
  \<open>MA_PERIOD\<close> where their last elements are read.
\<close>

definition update_indicators :: "TSITradingBot \<Rightarrow> py_error + TSITradingBot" where
  "update_indicators s =
     (if length (bars_5min s) < MA_PERIOD then Inr s
      else
        (let ma70 = rolling_mean MA_PERIOD (map b_close (bars_5min s));
             slope = pd_diff ma70
         in case calculate_tsi (map b_close (bars_5min s)) TSI_FAST TSI_SLOW of
              Inl e \<Rightarrow> Inl e
            | Inr tsi \<Rightarrow>
                (case calculate_parabolic_sar (map b_high (bars_5min s))
                        (map b_low (bars_5min s)) PSAR_AF PSAR_MAX_AF of
                   Inl e \<Rightarrow> Inl e
                 | Inr psar \<Rightarrow>
                     Inr (s\<lparr>current_ma70 := Some (last ma70),
                            ma70_slope := Some (last slope),
                            current_tsi := Some (last tsi),
                            current_sar := Some (last psar)\<rparr>))))"

definition get_bar_start_time :: "datetime \<Rightarrow> datetime" where
  "get_bar_start_time timestamp =
     timestamp\<lparr>dt_minute := (dt_minute timestamp div TIMEFRAME_MINUTES) * TIMEFRAME_MINUTES,
               dt_second := 0, dt_microsecond := 0\<rparr>"

subsection \<open>Orders\<close>

definition enter_short ::
  "TSITradingBot \<Rightarrow> pyfloat \<Rightarrow> order_status \<Rightarrow> TSITradingBot \<times> event list" where
  "enter_short s price trade =
     (if status trade = ''Filled''
      then (s\<lparr>in_position := True, position_entry_price := Some (avgFillPrice trade)\<rparr>,
            [ENTRY_SHORT price])
      else (s, [ENTRY_SHORT price]))"

text \<open>Subtracting the fill price from an entry price that is None raises TypeError.\<close>

definition exit_short ::
  "TSITradingBot \<Rightarrow> order_status \<Rightarrow> py_error + TSITradingBot \<times> event list" where
  "exit_short s trade =
     (if status trade = ''Filled''
      then (case position_entry_price s of
              None \<Rightarrow> Inl TypeError
            | Some entry \<Rightarrow>
                Inr (s\<lparr>in_position := False, position_entry_price := None\<rparr>,
                     [EXIT_SHORT, PNL (fsub entry (avgFillPrice trade))]))
      else Inr (s, [EXIT_SHORT]))"

subsection \<open>Entry and exit conditions\<close>

text \<open>Comparing a slope that is None with 0 raises TypeError.\<close>

definition check_entry_conditions ::
  "TSITradingBot \<Rightarrow> pyfloat \<Rightarrow> order_status \<Rightarrow> py_error + TSITradingBot \<times> event list" where
  "check_entry_conditions s price trade =
     (if in_position s then Inr (s, [])
      else
        (case current_ma70 s of
           None \<Rightarrow> Inr (s, [])
         | Some ma \<Rightarrow>
             (case current_tsi s of
                None \<Rightarrow> Inr (s, [])
              | Some tsi \<Rightarrow>
                  (let price_above_ma = fgt price ma in
                   case price_was_above_ma s of
                     None \<Rightarrow> Inr (s\<lparr>price_was_above_ma := Some price_above_ma\<rparr>, [])
                   | Some was_above \<Rightarrow>
                       (let crossed_down = (was_above \<and> \<not> price_above_ma);
                            s1 = s\<lparr>price_was_above_ma := Some price_above_ma\<rparr>
                        in if crossed_down
                           then (case ma70_slope s1 of
                                   None \<Rightarrow> Inl TypeError
                                 | Some slope \<Rightarrow>
                                     (let ma_descending = flt slope (Fin 0);
                                          tsi_below_threshold = flt tsi TSI_THRESHOLD
                                      in if ma_descending \<and> tsi_below_threshold
                                         then Inr (enter_short s1 price trade)
                                         else Inr (s1, [])))
                           else Inr (s1, []))))))"

text \<open>Reading the column \<open>high\<close> of an empty data frame raises KeyError.\<close>

definition check_exit_conditions ::
  "TSITradingBot \<Rightarrow> order_status \<Rightarrow> py_error + TSITradingBot \<times> event list" where
  "check_exit_conditions s trade =
     (if \<not> in_position s then Inr (s, [])
      else
        (case current_sar s of
           None \<Rightarrow> Inr (s, [])
         | Some stop \<Rightarrow>
             (if bars_5min s = [] then Inl KeyError
              else
                (let last_high = b_high (last (bars_5min s))
                 in if fge last_high stop then exit_short s trade else Inr (s, [])))))"

subsection \<open>Bar aggregation\<close>

definition max_bars :: nat where
  "max_bars = MA_PERIOD + nat TSI_SLOW + 100"

text \<open>
  \<open>_close_bar\<close>: the bar is appended, the series is cut to its last \<open>max_bars\<close> rows, the
  indicators are recomputed and the exit is checked. A bar with a None among its high, low and
  close cannot be formatted for the log line, which raises TypeError.
\<close>

definition close_bar ::
  "TSITradingBot \<Rightarrow> order_status \<Rightarrow> py_error + TSITradingBot \<times> event list" where
  "close_bar s trade =
     (case cb_open (current_bar s) of
        None \<Rightarrow> Inr (s, [])
      | Some op \<Rightarrow>
          (case (cb_high (current_bar s), cb_low (current_bar s), cb_close (current_bar s)) of
             (Some hi, Some lo, Some cl) \<Rightarrow>
               (let new_bar = \<lparr>b_start = bar_start_time s, b_open = op, b_high = hi,
                               b_low = lo, b_close = cl,
                               b_volume = cb_volume (current_bar s)\<rparr>;
                    bars = bars_5min s @ [new_bar];
                    bars' = (if length bars > max_bars
                             then drop (length bars - max_bars) bars else bars)
                in case update_indicators (s\<lparr>bars_5min := bars'\<rparr>) of
                     Inl e \<Rightarrow> Inl e
                   | Inr s2 \<Rightarrow> check_exit_conditions s2 trade)
           | _ \<Rightarrow> Inl TypeError))"

text \<open>
  \<open>_on_tick\<close>, with the clock reading \<open>now\<close> and the outcomes the broker would report for an
  exit order and for an entry order placed while this tick is handled. Taking \<open>max\<close> or
  \<open>min\<close> of None and a float raises TypeError.
\<close>

definition on_tick ::
  "TSITradingBot \<Rightarrow> ticker \<Rightarrow> datetime \<Rightarrow> order_status \<Rightarrow> order_status \<Rightarrow>
     py_error + TSITradingBot \<times> event list" where
  "on_tick s tk now exit_trade entry_trade =
     (case tk_last tk of
        None \<Rightarrow> Inr (s, [])
      | Some price \<Rightarrow>
          (if is_nan price then Inr (s, [])
           else
             (let bar_start = get_bar_start_time now in
              case
                (if bar_start_time s \<noteq> Some bar_start
                 then
                   (case
                      (if bar_start_time s \<noteq> None \<and> cb_open (current_bar s) \<noteq> None
                       then close_bar s exit_trade else Inr (s, [])) of
                      Inl e \<Rightarrow> Inl e
                    | Inr (s1, evs) \<Rightarrow>
                        Inr (s1\<lparr>bar_start_time := Some bar_start,
                                 current_bar :=
                                   \<lparr>cb_open = Some price, cb_high = Some price,
                                    cb_low = Some price, cb_close = Some price,
                                    cb_volume = Fin 0\<rparr>\<rparr>, evs))
                 else
                   (case (cb_high (current_bar s), cb_low (current_bar s)) of
                      (Some hi, Some lo) \<Rightarrow>
                        Inr (s\<lparr>current_bar :=
                                 (current_bar s)\<lparr>cb_high := Some (pymax2 hi price),
                                                  cb_low := Some (pymin2 lo price),
                                                  cb_close := Some price\<rparr>\<rparr>, [])
                    | _ \<Rightarrow> Inl TypeError)) of
                Inl e \<Rightarrow> Inl e
              | Inr (s2, evs) \<Rightarrow>
                  (case check_entry_conditions (s2\<lparr>last_price := Some price\<rparr>) price
                          entry_trade of
                     Inl e \<Rightarrow> Inl e
                   | Inr (s3, evs') \<Rightarrow> Inr (s3, evs @ evs')))))"

text \<open>
  The event loop calls \<open>_on_tick\<close> for every update of the ticker, in order.
\<close>

type_synonym tick_event = "ticker \<times> datetime \<times> order_status \<times> order_status"

fun run :: "TSITradingBot \<Rightarrow> tick_event list \<Rightarrow> py_error + TSITradingBot \<times> event list" where
  "run s [] = Inr (s, [])"
| "run s ((tk, now, exit_trade, entry_trade) # rest) =
     (case on_tick s tk now exit_trade entry_trade of
        Inl e \<Rightarrow> Inl e
      | Inr (s1, evs) \<Rightarrow>
          (case run s1 rest of
             Inl e \<Rightarrow> Inl e
           | Inr (s2, evs') \<Rightarrow> Inr (s2, evs @ evs')))"

section \<open>Example inputs\<close>

text \<open>
  A clock reading in the bar that starts at 00:00, one in the bar that starts at 00:05, an
  order that the broker reports as filled at a price, and one that is still pending.
\<close>

definition clock_0003 :: datetime where
  "clock_0003 = \<lparr>dt_year = 2024, dt_month = 1, dt_day = 1, dt_hour = 0, dt_minute = 3,
                  dt_second = 7, dt_microsecond = 9\<rparr>"

definition clock_0006 :: datetime where
  "clock_0006 = \<lparr>dt_year = 2024, dt_month = 1, dt_day = 1, dt_hour = 0, dt_minute = 6,
                  dt_second = 0, dt_microsecond = 0\<rparr>"

definition filled_at :: "real \<Rightarrow> order_status" where
  "filled_at p = \<lparr>status = ''Filled'', avgFillPrice = Fin p\<rparr>"

definition pending :: order_status where
  "pending = \<lparr>status = ''Submitted'', avgFillPrice = Fin 0\<rparr>"

definition tick_at :: "real \<Rightarrow> ticker" where
  "tick_at p = \<lparr>tk_last = Some (Fin p)\<rparr>"

text \<open>
  A flat bot whose indicators stand at moving average 100, slope \<open>-0.5\<close>, oscillator \<open>-12\<close>
  and stop 105, with no tick seen yet.
\<close>

definition flat_bot :: TSITradingBot where
  "flat_bot = bot_init\<lparr>current_tsi := Some (Fin (- 12)), current_ma70 := Some (Fin 100),
                       ma70_slope := Some (Fin (- (1 / 2))), current_sar := Some (Fin 105)\<rparr>"

text \<open>
  The same bot in a short position entered at 98, with the bar that started at 00:00 in
  progress.
\<close>

definition short_bot :: TSITradingBot where
  "short_bot =
     flat_bot\<lparr>in_position := True, position_entry_price := Some (Fin 98),
               price_was_above_ma := Some False, last_price := Some (Fin 104),
               bar_start_time := Some (get_bar_start_time clock_0003),
               current_bar := \<lparr>cb_open = Some (Fin 100), cb_high = Some (Fin 106),
                                cb_low = Some (Fin 99), cb_close = Some (Fin 104),
                                cb_volume = Fin 0\<rparr>\<rparr>"

section \<open>Invariants\<close>

text \<open>
  What the handlers rely on to run without raising: an entry price while in position, a
  slope whenever moving average and oscillator are set (the three are assigned together),
  and a complete in-progress bar once a bar has been started.
\<close>

definition state_ok :: "TSITradingBot \<Rightarrow> bool" where
  "state_ok s =
     ((in_position s \<longrightarrow> position_entry_price s \<noteq> None) \<and>
      (current_ma70 s \<noteq> None \<and> current_tsi s \<noteq> None \<longrightarrow> ma70_slope s \<noteq> None) \<and>
      (bar_start_time s \<noteq> None \<longrightarrow>
         cb_open (current_bar s) \<noteq> None \<and> cb_high (current_bar s) \<noteq> None \<and>
         cb_low (current_bar s) \<noteq> None \<and> cb_close (current_bar s) \<noteq> None))"

text \<open>
  The coupling of \<open>in_position\<close> and \<open>position_entry_price\<close>, where \<open>fill\<close> is the average
  fill price reported for the entry order of the open position.
\<close>

definition coupled :: "pyfloat \<Rightarrow> TSITradingBot \<Rightarrow> bool" where
  "coupled fill s =
     (if in_position s then position_entry_price s = Some fill
      else position_entry_price s = None)"

text \<open>The price ordering of a bar of the series, and of the in-progress bar.\<close>

definition ohlc_ok :: "bar \<Rightarrow> bool" where
  "ohlc_ok b =
     (fle (b_low b) (pymin2 (b_open b) (b_close b)) \<and>
      fge (b_high b) (pymax2 (b_open b) (b_close b)))"

definition current_ok :: "current_bar_dict \<Rightarrow> bool" where
  "current_ok cb =
     (case (cb_open cb, cb_high cb, cb_low cb, cb_close cb) of
        (Some op, Some hi, Some lo, Some cl) \<Rightarrow>
          fle lo op \<and> fle lo cl \<and> fle op hi \<and> fle cl hi
      | _ \<Rightarrow> False)"

text \<open>
  A series value \<open>a\<close> and the value \<open>b\<close> of the series built from the absolute momentum at
  the same position: both undefined, or both finite with \<open>b\<close> at least the absolute value
  of \<open>a\<close>.
\<close>

definition dominated :: "pyfloat \<Rightarrow> pyfloat \<Rightarrow> bool" where
  "dominated a b =
     (case (a, b) of
        (NaN, NaN) \<Rightarrow> True
      | (Fin x, Fin y) \<Rightarrow> \<bar>x\<bar> \<le> y
      | _ \<Rightarrow> False)"

section \<open>The trend-reversal stop as the specification describes it\<close>

text \<open>
  The specification describes the indicator as a step on a state: the current stop value, the
  acceleration factor, the extreme point and the regime. A bar is a pair of its high and its
  low. The step for a bar uses the one or two bars before it; where there is only one, it
  stands for both. The seeds are those of the program: the first stop is the first high, the
  first extreme point is the first low, and the regime starts as an uptrend.
\<close>

record stop_state =
  stop_value :: pyfloat
  accel :: pyfloat
  extreme :: pyfloat
  rising :: bool

definition lowest :: "pyfloat \<Rightarrow> pyfloat \<Rightarrow> pyfloat" where
  "lowest a b = (if fle a b then a else b)"

definition highest :: "pyfloat \<Rightarrow> pyfloat \<Rightarrow> pyfloat" where
  "highest a b = (if fle a b then b else a)"

text \<open>A value capped to be no higher than a bound, and floored to be no lower than one.\<close>

definition cap_at :: "pyfloat \<Rightarrow> pyfloat \<Rightarrow> pyfloat" where
  "cap_at x bound = (if flt bound x then bound else x)"

definition floor_at :: "pyfloat \<Rightarrow> pyfloat \<Rightarrow> pyfloat" where
  "floor_at x bound = (if flt x bound then bound else x)"

definition trend_step ::
  "pyfloat \<Rightarrow> pyfloat \<Rightarrow> pyfloat \<times> pyfloat \<Rightarrow> pyfloat \<times> pyfloat \<Rightarrow> pyfloat \<times> pyfloat \<Rightarrow>
     stop_state \<Rightarrow> stop_state" where
  "trend_step afStart afMax prev1 prev2 this st =
     (let projected =
            fadd (stop_value st) (fmul (accel st) (fsub (extreme st) (stop_value st)))
      in if rising st then
           (let clamped = cap_at projected (lowest (snd prev1) (snd prev2))
            in if flt (snd this) clamped
               then \<lparr>stop_value = extreme st, accel = afStart, extreme = snd this,
                     rising = False\<rparr>
               else if fgt (fst this) (extreme st)
               then \<lparr>stop_value = clamped, accel = cap_at (fadd (accel st) afStart) afMax,
                     extreme = fst this, rising = True\<rparr>
               else st\<lparr>stop_value := clamped\<rparr>)
         else
           (let clamped = floor_at projected (highest (fst prev1) (fst prev2))
            in if fgt (fst this) clamped
               then \<lparr>stop_value = extreme st, accel = afStart, extreme = fst this,
                     rising = True\<rparr>
               else if flt (snd this) (extreme st)
               then \<lparr>stop_value = clamped, accel = cap_at (fadd (accel st) afStart) afMax,
                     extreme = snd this, rising = False\<rparr>
               else st\<lparr>stop_value := clamped\<rparr>))"

fun stops_from ::
  "pyfloat \<Rightarrow> pyfloat \<Rightarrow> stop_state \<Rightarrow> pyfloat \<times> pyfloat \<Rightarrow> pyfloat \<times> pyfloat \<Rightarrow>
     (pyfloat \<times> pyfloat) list \<Rightarrow> pyfloat list" where
  "stops_from afStart afMax st prev1 prev2 [] = []"
| "stops_from afStart afMax st prev1 prev2 (this # rest) =
     (let st' = trend_step afStart afMax prev1 prev2 this st
      in stop_value st' # stops_from afStart afMax st' this prev1 rest)"

definition trendReversalStop ::
  "pyfloat list \<Rightarrow> pyfloat list \<Rightarrow> pyfloat \<Rightarrow> pyfloat \<Rightarrow> pyfloat list" where
  "trendReversalStop highs lows afStart afMax =
     (case zip highs lows of
        [] \<Rightarrow> []
      | first # rest \<Rightarrow>
          fst first #
          stops_from afStart afMax
            \<lparr>stop_value = fst first, accel = afStart, extreme = snd first, rising = True\<rparr>
            first first rest)"

section \<open>The indicators never fail on the bar series\<close>

lemma ewm_loop_length: "length (ewm_loop alpha w ow xs) = length xs"
  by (induction xs arbitrary: w ow) (simp_all add: Let_def)

lemma ewm_mean_ok:
  "1 \<le> spn \<Longrightarrow> \<exists>ys. ewm_mean spn xs = Inr ys \<and> length ys = length xs"
  by (cases xs) (simp_all add: ewm_mean_def ewm_loop_length)

lemma calculate_tsi_ok:
  assumes "1 \<le> fast" and "1 \<le> slow"
  shows "\<exists>ys. calculate_tsi close fast slow = Inr ys"
proof -
  obtain a where a: "ewm_mean slow (pd_diff close) = Inr a"
    using ewm_mean_ok [OF assms(2)] by blast
  obtain b where b: "ewm_mean fast a = Inr b"
    using ewm_mean_ok [OF assms(1)] by blast
  obtain c where c: "ewm_mean slow (map fabs (pd_diff close)) = Inr c"
    using ewm_mean_ok [OF assms(2)] by blast
  obtain d where d: "ewm_mean fast c = Inr d"
    using ewm_mean_ok [OF assms(1)] by blast
  show ?thesis
    by (simp add: calculate_tsi_def a b c d)
qed

lemma psar_body_ok:
  "length high \<le> length low \<Longrightarrow> i < length high \<Longrightarrow>
     \<exists>v'. psar_body high low af_start af_max i v = Inr v' \<and> length (sar v') = length (sar v)"
  by (simp add: psar_body_def Let_def)

lemma psar_loop_ok:
  "length high \<le> length low \<Longrightarrow>
     \<exists>v'. psar_loop high low af_start af_max i v = Inr v' \<and> length (sar v') = length (sar v)"
proof (induction high low af_start af_max i v rule: psar_loop.induct)
  case (1 high low af_start af_max i v)
  show ?case
  proof (cases "i < length high")
    case True
    then obtain v1 where v1: "psar_body high low af_start af_max i v = Inr v1"
      and len: "length (sar v1) = length (sar v)"
      using psar_body_ok [OF "1.prems"] by blast
    from "1.IH" [OF True v1 "1.prems"] len show ?thesis
      using True v1 by (subst psar_loop.simps) simp
  next
    case False
    then show ?thesis by (subst psar_loop.simps) simp
  qed
qed

lemma calculate_parabolic_sar_ok:
  assumes "high \<noteq> []" and "length high \<le> length low"
  shows "\<exists>ys. calculate_parabolic_sar high low af_start af_max = Inr ys \<and> length ys = length high"
proof -
  obtain h0 hs where h: "high = h0 # hs" using assms(1) by (cases high) auto
  obtain l0 ls where l: "low = l0 # ls" using assms h by (cases low) auto
  obtain v' where "psar_loop high low af_start af_max 1
      \<lparr>sar = (replicate (length high) NaN)[0 := h0], af = af_start, uptrend = True, ep = l0\<rparr> = Inr v'"
    and "length (sar v') = length high"
    using psar_loop_ok [OF assms(2), of af_start af_max 1
        "\<lparr>sar = (replicate (length high) NaN)[0 := h0], af = af_start, uptrend = True, ep = l0\<rparr>"]
    by auto
  then show ?thesis
    unfolding calculate_parabolic_sar_def by (simp add: h l)
qed

lemma update_indicators_cases:
  "update_indicators s = Inr s \<or>
   (\<exists>a b c d. update_indicators s =
       Inr (s\<lparr>current_ma70 := Some a, ma70_slope := Some b, current_tsi := Some c,
              current_sar := Some d\<rparr>))"
proof (cases "length (bars_5min s) < MA_PERIOD")
  case True
  then show ?thesis by (simp add: update_indicators_def)
next
  case False
  then have ne: "map b_high (bars_5min s) \<noteq> []"
    by (auto simp add: MA_PERIOD_def)
  obtain tsi where tsi: "calculate_tsi (map b_close (bars_5min s)) TSI_FAST TSI_SLOW = Inr tsi"
    using calculate_tsi_ok [of TSI_FAST TSI_SLOW] by (auto simp add: TSI_FAST_def TSI_SLOW_def)
  obtain psar where psar: "calculate_parabolic_sar (map b_high (bars_5min s))
      (map b_low (bars_5min s)) PSAR_AF PSAR_MAX_AF = Inr psar"
    using calculate_parabolic_sar_ok [OF ne, of "map b_low (bars_5min s)"] by auto
  have "update_indicators s =
      Inr (s\<lparr>current_ma70 := Some (last (rolling_mean MA_PERIOD (map b_close (bars_5min s)))),
             ma70_slope := Some (last (pd_diff (rolling_mean MA_PERIOD (map b_close (bars_5min s))))),
             current_tsi := Some (last tsi), current_sar := Some (last psar)\<rparr>)"
    using False by (simp add: update_indicators_def tsi psar Let_def)
  then show ?thesis by blast
qed

section \<open>What the handlers return\<close>

text \<open>
  The results of the handlers on states that satisfy \<open>state_ok\<close>: none of them
  raises, and each changes only the fields listed.
\<close>

lemma check_exit_conditions_result:
  assumes "in_position s \<longrightarrow> position_entry_price s \<noteq> None" and "bars_5min s \<noteq> []"
  shows "\<exists>s' evs. check_exit_conditions s trade = Inr (s', evs) \<and>
           (s' = s \<and> (evs = [] \<or> evs = [EXIT_SHORT]) \<or>
            (\<exists>entry. in_position s \<and> position_entry_price s = Some entry \<and>
               status trade = ''Filled'' \<and>
               s' = s\<lparr>in_position := False, position_entry_price := None\<rparr> \<and>
               evs = [EXIT_SHORT, PNL (fsub entry (avgFillPrice trade))]))"
  using assms
  by (auto simp add: check_exit_conditions_def exit_short_def Let_def split: option.splits)

lemma close_bar_result:
  assumes "cb_open (current_bar s) = Some op" and "cb_high (current_bar s) = Some hi"
    and "cb_low (current_bar s) = Some lo" and "cb_close (current_bar s) = Some cl"
    and "in_position s \<longrightarrow> position_entry_price s \<noteq> None"
  shows "\<exists>s1 s' evs. close_bar s trade = Inr (s', evs) \<and>
           check_exit_conditions s1 trade = Inr (s', evs) \<and>
           bars_5min s1 \<noteq> [] \<and>
           last (bars_5min s1) = \<lparr>b_start = bar_start_time s, b_open = op, b_high = hi,
              b_low = lo, b_close = cl, b_volume = cb_volume (current_bar s)\<rparr> \<and>
           set (bars_5min s1) \<subseteq> insert (last (bars_5min s1)) (set (bars_5min s)) \<and>
           current_bar s1 = current_bar s \<and> bar_start_time s1 = bar_start_time s \<and>
           in_position s1 = in_position s \<and>
           position_entry_price s1 = position_entry_price s \<and>
           last_price s1 = last_price s \<and> price_was_above_ma s1 = price_was_above_ma s \<and>
           (current_ma70 s1 = current_ma70 s \<and> ma70_slope s1 = ma70_slope s \<and>
            current_tsi s1 = current_tsi s \<and> current_sar s1 = current_sar s \<or>
            current_ma70 s1 \<noteq> None \<and> ma70_slope s1 \<noteq> None \<and>
            current_tsi s1 \<noteq> None \<and> current_sar s1 \<noteq> None)"
proof -
  define nb where "nb = \<lparr>b_start = bar_start_time s, b_open = op, b_high = hi,
              b_low = lo, b_close = cl, b_volume = cb_volume (current_bar s)\<rparr>"
  define bars where "bars = (if length (bars_5min s @ [nb]) > max_bars
      then drop (length (bars_5min s @ [nb]) - max_bars) (bars_5min s @ [nb])
      else bars_5min s @ [nb])"
  have mb: "0 < max_bars" by (simp add: max_bars_def)
  have ne: "bars \<noteq> []" using mb by (auto simp add: bars_def)
  have la: "last bars = nb" using mb by (auto simp add: bars_def)
  have sub: "set bars \<subseteq> insert nb (set (bars_5min s))"
    using set_drop_subset [of "length (bars_5min s @ [nb]) - max_bars" "bars_5min s @ [nb]"]
    by (auto simp add: bars_def)
  have cb: "close_bar s trade =
      (case update_indicators (s\<lparr>bars_5min := bars\<rparr>) of
         Inl e \<Rightarrow> Inl e | Inr s2 \<Rightarrow> check_exit_conditions s2 trade)"
    using assms(1-4) by (simp add: close_bar_def bars_def nb_def Let_def)
  from update_indicators_cases [of "s\<lparr>bars_5min := bars\<rparr>"]
  obtain s1 where s1: "update_indicators (s\<lparr>bars_5min := bars\<rparr>) = Inr s1"
    and s1_eq: "s1 = s\<lparr>bars_5min := bars\<rparr> \<or>
      (\<exists>a b c d. s1 = s\<lparr>bars_5min := bars, current_ma70 := Some a, ma70_slope := Some b,
          current_tsi := Some c, current_sar := Some d\<rparr>)"
    by blast
  have b1: "bars_5min s1 = bars" using s1_eq by auto
  have pos: "in_position s1 \<longrightarrow> position_entry_price s1 \<noteq> None"
    using s1_eq assms(5) by auto
  from check_exit_conditions_result [OF pos, of trade] ne b1
  obtain s' evs where ce: "check_exit_conditions s1 trade = Inr (s', evs)" by auto
  have "close_bar s trade = Inr (s', evs)" by (simp add: cb s1 ce)
  moreover have "current_ma70 s1 = current_ma70 s \<and> ma70_slope s1 = ma70_slope s \<and>
            current_tsi s1 = current_tsi s \<and> current_sar s1 = current_sar s \<or>
            current_ma70 s1 \<noteq> None \<and> ma70_slope s1 \<noteq> None \<and>
            current_tsi s1 \<noteq> None \<and> current_sar s1 \<noteq> None"
    using s1_eq by auto
  moreover have "current_bar s1 = current_bar s \<and> bar_start_time s1 = bar_start_time s \<and>
           in_position s1 = in_position s \<and>
           position_entry_price s1 = position_entry_price s \<and>
           last_price s1 = last_price s \<and> price_was_above_ma s1 = price_was_above_ma s"
    using s1_eq by auto
  ultimately show ?thesis
    using ce ne la sub b1 unfolding nb_def [symmetric] by (intro exI [of _ s1] exI [of _ s'] exI [of _ evs]) simp
qed

lemma check_entry_conditions_result:
  assumes "current_ma70 s \<noteq> None \<and> current_tsi s \<noteq> None \<longrightarrow> ma70_slope s \<noteq> None"
  shows "\<exists>s' evs w. check_entry_conditions s price trade = Inr (s', evs) \<and>
           (s' = s\<lparr>price_was_above_ma := w\<rparr> \<and>
              (evs = [] \<or> evs = [ENTRY_SHORT price] \<and> status trade \<noteq> ''Filled'' \<and>
                 \<not> in_position s) \<or>
            s' = s\<lparr>price_was_above_ma := w, in_position := True,
                   position_entry_price := Some (avgFillPrice trade)\<rparr> \<and>
              evs = [ENTRY_SHORT price] \<and> status trade = ''Filled'' \<and> \<not> in_position s) \<and>
           w = (if \<not> in_position s \<and> current_ma70 s \<noteq> None \<and> current_tsi s \<noteq> None
                then Some (fgt price (the (current_ma70 s))) else price_was_above_ma s)"
  using assms
  by (auto simp add: check_entry_conditions_def enter_short_def Let_def split: option.splits)

lemma on_tick_dropped:
  "tk_last tk = None \<or> tk_last tk = Some NaN \<Longrightarrow>
     on_tick s tk now exit_trade entry_trade = Inr (s, [])"
  by (auto simp add: on_tick_def)

lemma is_nan_iff: "is_nan x \<longleftrightarrow> x = NaN"
  by (cases x) simp_all


lemma close_bar_frame:
  assumes "cb_open (current_bar s) = Some op" and "cb_high (current_bar s) = Some hi"
    and "cb_low (current_bar s) = Some lo" and "cb_close (current_bar s) = Some cl"
    and "in_position s \<longrightarrow> position_entry_price s \<noteq> None"
  shows "\<exists>sc evs. close_bar s trade = Inr (sc, evs) \<and>
           bars_5min sc \<noteq> [] \<and>
           last (bars_5min sc) = \<lparr>b_start = bar_start_time s, b_open = op, b_high = hi,
              b_low = lo, b_close = cl, b_volume = cb_volume (current_bar s)\<rparr> \<and>
           set (bars_5min sc) \<subseteq> insert (last (bars_5min sc)) (set (bars_5min s)) \<and>
           current_bar sc = current_bar s \<and> bar_start_time sc = bar_start_time s \<and>
           last_price sc = last_price s \<and> price_was_above_ma sc = price_was_above_ma s \<and>
           (current_ma70 sc = current_ma70 s \<and> ma70_slope sc = ma70_slope s \<and>
            current_tsi sc = current_tsi s \<and> current_sar sc = current_sar s \<or>
            current_ma70 sc \<noteq> None \<and> ma70_slope sc \<noteq> None \<and>
            current_tsi sc \<noteq> None \<and> current_sar sc \<noteq> None) \<and>
           (in_position sc = in_position s \<and>
              position_entry_price sc = position_entry_price s \<and>
              (evs = [] \<or> evs = [EXIT_SHORT]) \<or>
            (\<exists>entry. in_position s \<and> position_entry_price s = Some entry \<and>
               status trade = ''Filled'' \<and> \<not> in_position sc \<and>
               position_entry_price sc = None \<and>
               evs = [EXIT_SHORT, PNL (fsub entry (avgFillPrice trade))]))"
proof -
  from close_bar_result [OF assms, of trade]
  obtain s1 sc evs where cb: "close_bar s trade = Inr (sc, evs)"
    and ce: "check_exit_conditions s1 trade = Inr (sc, evs)"
    and ne: "bars_5min s1 \<noteq> []"
    and la: "last (bars_5min s1) = \<lparr>b_start = bar_start_time s, b_open = op, b_high = hi,
              b_low = lo, b_close = cl, b_volume = cb_volume (current_bar s)\<rparr>"
    and sub: "set (bars_5min s1) \<subseteq> insert (last (bars_5min s1)) (set (bars_5min s))"
    and same: "current_bar s1 = current_bar s" "bar_start_time s1 = bar_start_time s"
      "in_position s1 = in_position s" "position_entry_price s1 = position_entry_price s"
      "last_price s1 = last_price s" "price_was_above_ma s1 = price_was_above_ma s"
    and ind: "current_ma70 s1 = current_ma70 s \<and> ma70_slope s1 = ma70_slope s \<and>
            current_tsi s1 = current_tsi s \<and> current_sar s1 = current_sar s \<or>
            current_ma70 s1 \<noteq> None \<and> ma70_slope s1 \<noteq> None \<and>
            current_tsi s1 \<noteq> None \<and> current_sar s1 \<noteq> None"
    by blast
  have pos: "in_position s1 \<longrightarrow> position_entry_price s1 \<noteq> None"
    using same assms(5) by simp
  from check_exit_conditions_result [OF pos ne, of trade] ce
  have "sc = s1 \<and> (evs = [] \<or> evs = [EXIT_SHORT]) \<or>
        (\<exists>entry. in_position s1 \<and> position_entry_price s1 = Some entry \<and>
           status trade = ''Filled'' \<and>
           sc = s1\<lparr>in_position := False, position_entry_price := None\<rparr> \<and>
           evs = [EXIT_SHORT, PNL (fsub entry (avgFillPrice trade))])"
    by simp
  then show ?thesis
  proof
    assume "sc = s1 \<and> (evs = [] \<or> evs = [EXIT_SHORT])"
    then show ?thesis
      using cb ne la sub same ind by (intro exI [of _ sc] exI [of _ evs]) simp
  next
    assume "\<exists>entry. in_position s1 \<and> position_entry_price s1 = Some entry \<and>
           status trade = ''Filled'' \<and>
           sc = s1\<lparr>in_position := False, position_entry_price := None\<rparr> \<and>
           evs = [EXIT_SHORT, PNL (fsub entry (avgFillPrice trade))]"
    then obtain entry where e: "in_position s1" "position_entry_price s1 = Some entry"
      "status trade = ''Filled''"
      "sc = s1\<lparr>in_position := False, position_entry_price := None\<rparr>"
      "evs = [EXIT_SHORT, PNL (fsub entry (avgFillPrice trade))]"
      by blast
    have pe: "in_position s" "position_entry_price s = Some entry"
      using e(1,2) same(3,4) by simp_all
    have sc: "\<not> in_position sc" "position_entry_price sc = None"
      "bars_5min sc = bars_5min s1" "current_bar sc = current_bar s1"
      "bar_start_time sc = bar_start_time s1" "last_price sc = last_price s1"
      "price_was_above_ma sc = price_was_above_ma s1" "current_ma70 sc = current_ma70 s1"
      "ma70_slope sc = ma70_slope s1" "current_tsi sc = current_tsi s1"
      "current_sar sc = current_sar s1"
      using e(4) by simp_all
    have "\<exists>entry. in_position s \<and> position_entry_price s = Some entry \<and>
               status trade = ''Filled'' \<and> \<not> in_position sc \<and>
               position_entry_price sc = None \<and>
               evs = [EXIT_SHORT, PNL (fsub entry (avgFillPrice trade))]"
      using pe sc(1,2) e(3,5) by blast
    then show ?thesis
      using cb ne la sub same(1,2,5,6) ind sc(3-11)
      by (intro exI [of _ sc] exI [of _ evs]) simp
  qed
qed

lemma on_tick_steps:
  assumes "state_ok s" and "tk_last tk = Some price" and "\<not> is_nan price"
  shows "\<exists>s1 ev1 s' ev2.
           on_tick s tk now exit_trade entry_trade = Inr (s', ev1 @ ev2) \<and>
           check_entry_conditions (s1\<lparr>last_price := Some price\<rparr>) price entry_trade =
             Inr (s', ev2) \<and>
           (bar_start_time s = Some (get_bar_start_time now) \<and> ev1 = [] \<and>
              (\<exists>hi lo. cb_high (current_bar s) = Some hi \<and> cb_low (current_bar s) = Some lo \<and>
                 s1 = s\<lparr>current_bar := (current_bar s)\<lparr>cb_high := Some (pymax2 hi price),
                          cb_low := Some (pymin2 lo price), cb_close := Some price\<rparr>\<rparr>) \<or>
            bar_start_time s = None \<and> ev1 = [] \<and>
              s1 = s\<lparr>bar_start_time := Some (get_bar_start_time now),
                     current_bar := \<lparr>cb_open = Some price, cb_high = Some price,
                       cb_low = Some price, cb_close = Some price, cb_volume = Fin 0\<rparr>\<rparr> \<or>
            bar_start_time s \<noteq> None \<and> bar_start_time s \<noteq> Some (get_bar_start_time now) \<and>
              (\<exists>sc. close_bar s exit_trade = Inr (sc, ev1) \<and>
                 s1 = sc\<lparr>bar_start_time := Some (get_bar_start_time now),
                     current_bar := \<lparr>cb_open = Some price, cb_high = Some price,
                       cb_low = Some price, cb_close = Some price, cb_volume = Fin 0\<rparr>\<rparr>))"
proof -
  let ?bs = "get_bar_start_time now"
  let ?new = "\<lparr>cb_open = Some price, cb_high = Some price,
                       cb_low = Some price, cb_close = Some price, cb_volume = Fin 0\<rparr>"
  have slope: "current_ma70 s \<noteq> None \<and> current_tsi s \<noteq> None \<longrightarrow> ma70_slope s \<noteq> None"
    using assms(1) by (simp add: state_ok_def)
  consider (same) "bar_start_time s = Some ?bs" | (first) "bar_start_time s = None"
    | (other) "bar_start_time s \<noteq> None" "bar_start_time s \<noteq> Some ?bs"
    by blast
  then show ?thesis
  proof cases
    case same
    have "cb_high (current_bar s) \<noteq> None \<and> cb_low (current_bar s) \<noteq> None"
      using assms(1) same by (simp add: state_ok_def)
    then obtain hi lo where hl: "cb_high (current_bar s) = Some hi"
      "cb_low (current_bar s) = Some lo"
      by blast
    let ?s1 = "s\<lparr>current_bar := (current_bar s)\<lparr>cb_high := Some (pymax2 hi price),
                          cb_low := Some (pymin2 lo price), cb_close := Some price\<rparr>\<rparr>"
    from check_entry_conditions_result [of "?s1\<lparr>last_price := Some price\<rparr>" price entry_trade]
    obtain s' ev2 where ce: "check_entry_conditions (?s1\<lparr>last_price := Some price\<rparr>) price
        entry_trade = Inr (s', ev2)"
      using slope by auto
    have "on_tick s tk now exit_trade entry_trade = Inr (s', [] @ ev2)"
      using same hl assms(2,3) ce by (simp add: on_tick_def Let_def)
    then show ?thesis
      using ce same hl by blast
  next
    case first
    let ?s1 = "s\<lparr>bar_start_time := Some ?bs, current_bar := ?new\<rparr>"
    from check_entry_conditions_result [of "?s1\<lparr>last_price := Some price\<rparr>" price entry_trade]
    obtain s' ev2 where ce: "check_entry_conditions (?s1\<lparr>last_price := Some price\<rparr>) price
        entry_trade = Inr (s', ev2)"
      using slope by auto
    have "on_tick s tk now exit_trade entry_trade = Inr (s', [] @ ev2)"
      using first assms(2,3) ce by (simp add: on_tick_def Let_def)
    then show ?thesis
      using ce first by blast
  next
    case other
    have "cb_open (current_bar s) \<noteq> None \<and> cb_high (current_bar s) \<noteq> None \<and>
        cb_low (current_bar s) \<noteq> None \<and> cb_close (current_bar s) \<noteq> None"
      using assms(1) other(1) by (simp add: state_ok_def)
    then obtain op hi lo cl where cur: "cb_open (current_bar s) = Some op"
      "cb_high (current_bar s) = Some hi" "cb_low (current_bar s) = Some lo"
      "cb_close (current_bar s) = Some cl"
      by blast
    have pos: "in_position s \<longrightarrow> position_entry_price s \<noteq> None"
      using assms(1) by (simp add: state_ok_def)
    from close_bar_frame [OF cur pos, of exit_trade]
    obtain sc ev1 where cb: "close_bar s exit_trade = Inr (sc, ev1)"
      and ind: "current_ma70 sc = current_ma70 s \<and> ma70_slope sc = ma70_slope s \<and>
            current_tsi sc = current_tsi s \<and> current_sar sc = current_sar s \<or>
            current_ma70 sc \<noteq> None \<and> ma70_slope sc \<noteq> None \<and>
            current_tsi sc \<noteq> None \<and> current_sar sc \<noteq> None"
      by blast
    let ?s1 = "sc\<lparr>bar_start_time := Some ?bs, current_bar := ?new\<rparr>"
    have slope1: "current_ma70 (?s1\<lparr>last_price := Some price\<rparr>) \<noteq> None \<and>
        current_tsi (?s1\<lparr>last_price := Some price\<rparr>) \<noteq> None \<longrightarrow>
        ma70_slope (?s1\<lparr>last_price := Some price\<rparr>) \<noteq> None"
      using ind slope by auto
    from check_entry_conditions_result [OF slope1, of price entry_trade]
    obtain s' ev2 where ce: "check_entry_conditions (?s1\<lparr>last_price := Some price\<rparr>) price
        entry_trade = Inr (s', ev2)"
      by blast
    have "on_tick s tk now exit_trade entry_trade = Inr (s', ev1 @ ev2)"
      using other cur assms(2,3) ce cb by (simp add: on_tick_def Let_def)
    then show ?thesis
      using ce other cb by blast
  qed
qed

lemma on_tick_bar_part:
  assumes "state_ok s" and "tk_last tk = Some price" and "\<not> is_nan price"
  shows "\<exists>s1 ev1 s' ev2.
           on_tick s tk now exit_trade entry_trade = Inr (s', ev1 @ ev2) \<and>
           check_entry_conditions (s1\<lparr>last_price := Some price\<rparr>) price entry_trade =
             Inr (s', ev2) \<and>
           bar_start_time s1 = Some (get_bar_start_time now) \<and>
           (if bar_start_time s = Some (get_bar_start_time now)
            then (\<exists>hi lo. cb_high (current_bar s) = Some hi \<and>
                    cb_low (current_bar s) = Some lo \<and>
                    current_bar s1 = (current_bar s)\<lparr>cb_high := Some (pymax2 hi price),
                       cb_low := Some (pymin2 lo price), cb_close := Some price\<rparr>)
            else current_bar s1 = \<lparr>cb_open = Some price, cb_high = Some price,
                       cb_low = Some price, cb_close = Some price, cb_volume = Fin 0\<rparr>) \<and>
           (bars_5min s1 = bars_5min s \<and> ev1 = [] \<or>
            bar_start_time s \<noteq> None \<and> bar_start_time s \<noteq> Some (get_bar_start_time now) \<and>
            bars_5min s1 \<noteq> [] \<and>
            Some (b_open (last (bars_5min s1))) = cb_open (current_bar s) \<and>
            Some (b_high (last (bars_5min s1))) = cb_high (current_bar s) \<and>
            Some (b_low (last (bars_5min s1))) = cb_low (current_bar s) \<and>
            Some (b_close (last (bars_5min s1))) = cb_close (current_bar s) \<and>
            b_volume (last (bars_5min s1)) = cb_volume (current_bar s) \<and>
            b_start (last (bars_5min s1)) = bar_start_time s \<and>
            set (bars_5min s1) \<subseteq> insert (last (bars_5min s1)) (set (bars_5min s))) \<and>
           (current_ma70 s1 = current_ma70 s \<and> ma70_slope s1 = ma70_slope s \<and>
            current_tsi s1 = current_tsi s \<and> current_sar s1 = current_sar s \<or>
            current_ma70 s1 \<noteq> None \<and> ma70_slope s1 \<noteq> None \<and>
            current_tsi s1 \<noteq> None \<and> current_sar s1 \<noteq> None) \<and>
           (in_position s1 = in_position s \<and>
              position_entry_price s1 = position_entry_price s \<and>
              (ev1 = [] \<or> ev1 = [EXIT_SHORT]) \<or>
            (\<exists>entry. in_position s \<and> position_entry_price s = Some entry \<and>
               status exit_trade = ''Filled'' \<and> \<not> in_position s1 \<and>
               position_entry_price s1 = None \<and>
               ev1 = [EXIT_SHORT, PNL (fsub entry (avgFillPrice exit_trade))])) \<and>
           price_was_above_ma s1 = price_was_above_ma s"
proof -
  let ?bs = "get_bar_start_time now"
  let ?new = "\<lparr>cb_open = Some price, cb_high = Some price,
                       cb_low = Some price, cb_close = Some price, cb_volume = Fin 0\<rparr>"
  from on_tick_steps [OF assms, of now exit_trade entry_trade]
  obtain s1 ev1 s' ev2 where ot: "on_tick s tk now exit_trade entry_trade = Inr (s', ev1 @ ev2)"
    and ce: "check_entry_conditions (s1\<lparr>last_price := Some price\<rparr>) price entry_trade =
             Inr (s', ev2)"
    and bar: "bar_start_time s = Some ?bs \<and> ev1 = [] \<and>
              (\<exists>hi lo. cb_high (current_bar s) = Some hi \<and> cb_low (current_bar s) = Some lo \<and>
                 s1 = s\<lparr>current_bar := (current_bar s)\<lparr>cb_high := Some (pymax2 hi price),
                          cb_low := Some (pymin2 lo price), cb_close := Some price\<rparr>\<rparr>) \<or>
            bar_start_time s = None \<and> ev1 = [] \<and>
              s1 = s\<lparr>bar_start_time := Some ?bs, current_bar := ?new\<rparr> \<or>
            bar_start_time s \<noteq> None \<and> bar_start_time s \<noteq> Some ?bs \<and>
              (\<exists>sc. close_bar s exit_trade = Inr (sc, ev1) \<and>
                 s1 = sc\<lparr>bar_start_time := Some ?bs, current_bar := ?new\<rparr>)"
    by blast
  from bar consider
      (same) hi lo where "bar_start_time s = Some ?bs" "ev1 = []"
        "cb_high (current_bar s) = Some hi" "cb_low (current_bar s) = Some lo"
        "s1 = s\<lparr>current_bar := (current_bar s)\<lparr>cb_high := Some (pymax2 hi price),
                          cb_low := Some (pymin2 lo price), cb_close := Some price\<rparr>\<rparr>"
    | (first) "bar_start_time s = None" "ev1 = []"
        "s1 = s\<lparr>bar_start_time := Some ?bs, current_bar := ?new\<rparr>"
    | (other) sc where "bar_start_time s \<noteq> None" "bar_start_time s \<noteq> Some ?bs"
        "close_bar s exit_trade = Inr (sc, ev1)"
        "s1 = sc\<lparr>bar_start_time := Some ?bs, current_bar := ?new\<rparr>"
    by (elim disjE conjE exE) blast+
  then show ?thesis
  proof cases
    case same
    show ?thesis
      apply (rule exI [of _ s1], rule exI [of _ ev1], rule exI [of _ s'], rule exI [of _ ev2])
      using ot ce same by simp
  next
    case first
    show ?thesis
      apply (rule exI [of _ s1], rule exI [of _ ev1], rule exI [of _ s'], rule exI [of _ ev2])
      using ot ce first by simp
  next
    case other
    have "cb_open (current_bar s) \<noteq> None \<and> cb_high (current_bar s) \<noteq> None \<and>
        cb_low (current_bar s) \<noteq> None \<and> cb_close (current_bar s) \<noteq> None"
      using assms(1) other(1) by (simp add: state_ok_def)
    then obtain op hi lo cl where cur: "cb_open (current_bar s) = Some op"
      "cb_high (current_bar s) = Some hi" "cb_low (current_bar s) = Some lo"
      "cb_close (current_bar s) = Some cl"
      by blast
    have pos: "in_position s \<longrightarrow> position_entry_price s \<noteq> None"
      using assms(1) by (simp add: state_ok_def)
    from close_bar_frame [OF cur pos, of exit_trade]
    obtain sc' evs' where cb': "close_bar s exit_trade = Inr (sc', evs')"
      and fr': "bars_5min sc' \<noteq> [] \<and>
           last (bars_5min sc') = \<lparr>b_start = bar_start_time s, b_open = op, b_high = hi,
              b_low = lo, b_close = cl, b_volume = cb_volume (current_bar s)\<rparr> \<and>
           set (bars_5min sc') \<subseteq> insert (last (bars_5min sc')) (set (bars_5min s)) \<and>
           current_bar sc' = current_bar s \<and> bar_start_time sc' = bar_start_time s \<and>
           last_price sc' = last_price s \<and> price_was_above_ma sc' = price_was_above_ma s \<and>
           (current_ma70 sc' = current_ma70 s \<and> ma70_slope sc' = ma70_slope s \<and>
            current_tsi sc' = current_tsi s \<and> current_sar sc' = current_sar s \<or>
            current_ma70 sc' \<noteq> None \<and> ma70_slope sc' \<noteq> None \<and>
            current_tsi sc' \<noteq> None \<and> current_sar sc' \<noteq> None) \<and>
           (in_position sc' = in_position s \<and>
              position_entry_price sc' = position_entry_price s \<and>
              (evs' = [] \<or> evs' = [EXIT_SHORT]) \<or>
            (\<exists>entry. in_position s \<and> position_entry_price s = Some entry \<and>
               status exit_trade = ''Filled'' \<and> \<not> in_position sc' \<and>
               position_entry_price sc' = None \<and>
               evs' = [EXIT_SHORT, PNL (fsub entry (avgFillPrice exit_trade))]))"
      by blast
    have eq: "sc' = sc" "evs' = ev1"
      using cb' other(3) by simp_all
    have fr: "bars_5min sc \<noteq> []"
      "b_open (last (bars_5min sc)) = op" "b_high (last (bars_5min sc)) = hi"
      "b_low (last (bars_5min sc)) = lo" "b_close (last (bars_5min sc)) = cl"
      "b_volume (last (bars_5min sc)) = cb_volume (current_bar s)"
      "b_start (last (bars_5min sc)) = bar_start_time s"
      "price_was_above_ma sc = price_was_above_ma s"
      "current_ma70 sc = current_ma70 s \<and> ma70_slope sc = ma70_slope s \<and>
            current_tsi sc = current_tsi s \<and> current_sar sc = current_sar s \<or>
            current_ma70 sc \<noteq> None \<and> ma70_slope sc \<noteq> None \<and>
            current_tsi sc \<noteq> None \<and> current_sar sc \<noteq> None"
      "in_position sc = in_position s \<and>
              position_entry_price sc = position_entry_price s \<and>
              (ev1 = [] \<or> ev1 = [EXIT_SHORT]) \<or>
            (\<exists>entry. in_position s \<and> position_entry_price s = Some entry \<and>
               status exit_trade = ''Filled'' \<and> \<not> in_position sc \<and>
               position_entry_price sc = None \<and>
               ev1 = [EXIT_SHORT, PNL (fsub entry (avgFillPrice exit_trade))])"
      using fr' unfolding eq by simp_all
    have fr_set: "set (bars_5min sc) \<subseteq> insert (last (bars_5min sc)) (set (bars_5min s))"
      using fr' unfolding eq by blast
    have s1f: "bars_5min s1 = bars_5min sc" "price_was_above_ma s1 = price_was_above_ma sc"
      "current_ma70 s1 = current_ma70 sc" "ma70_slope s1 = ma70_slope sc"
      "current_tsi s1 = current_tsi sc" "current_sar s1 = current_sar sc"
      "in_position s1 = in_position sc" "position_entry_price s1 = position_entry_price sc"
      "bar_start_time s1 = Some ?bs" "current_bar s1 = ?new"
      using other(4) by simp_all
    show ?thesis
      apply (rule exI [of _ s1], rule exI [of _ ev1], rule exI [of _ s'], rule exI [of _ ev2])
      unfolding s1f
      using ot ce other(1,2) fr fr_set cur by simp
  qed
qed


lemma on_tick_result:
  assumes "state_ok s" and "tk_last tk = Some price" and "\<not> is_nan price"
  shows "\<exists>s' ev1 ev2 pm em.
           on_tick s tk now exit_trade entry_trade = Inr (s', ev1 @ ev2) \<and>
           bar_start_time s' = Some (get_bar_start_time now) \<and>
           last_price s' = Some price \<and>
           (if bar_start_time s = Some (get_bar_start_time now)
            then (\<exists>hi lo. cb_high (current_bar s) = Some hi \<and>
                    cb_low (current_bar s) = Some lo \<and>
                    current_bar s' = (current_bar s)\<lparr>cb_high := Some (pymax2 hi price),
                       cb_low := Some (pymin2 lo price), cb_close := Some price\<rparr>)
            else current_bar s' = \<lparr>cb_open = Some price, cb_high = Some price,
                       cb_low = Some price, cb_close = Some price, cb_volume = Fin 0\<rparr>) \<and>
           (bars_5min s' = bars_5min s \<and> ev1 = [] \<or>
            bar_start_time s \<noteq> None \<and> bar_start_time s \<noteq> Some (get_bar_start_time now) \<and>
            bars_5min s' \<noteq> [] \<and>
            Some (b_open (last (bars_5min s'))) = cb_open (current_bar s) \<and>
            Some (b_high (last (bars_5min s'))) = cb_high (current_bar s) \<and>
            Some (b_low (last (bars_5min s'))) = cb_low (current_bar s) \<and>
            Some (b_close (last (bars_5min s'))) = cb_close (current_bar s) \<and>
            b_volume (last (bars_5min s')) = cb_volume (current_bar s) \<and>
            b_start (last (bars_5min s')) = bar_start_time s \<and>
            set (bars_5min s') \<subseteq> insert (last (bars_5min s')) (set (bars_5min s))) \<and>
           (current_ma70 s' = current_ma70 s \<and> ma70_slope s' = ma70_slope s \<and>
            current_tsi s' = current_tsi s \<and> current_sar s' = current_sar s \<or>
            current_ma70 s' \<noteq> None \<and> ma70_slope s' \<noteq> None \<and>
            current_tsi s' \<noteq> None \<and> current_sar s' \<noteq> None) \<and>
           (pm = in_position s \<and> em = position_entry_price s \<and>
              (ev1 = [] \<or> ev1 = [EXIT_SHORT]) \<or>
            (\<exists>entry. in_position s \<and> position_entry_price s = Some entry \<and>
               status exit_trade = ''Filled'' \<and> \<not> pm \<and> em = None \<and>
               ev1 = [EXIT_SHORT, PNL (fsub entry (avgFillPrice exit_trade))])) \<and>
           (in_position s' = pm \<and> position_entry_price s' = em \<and>
              (ev2 = [] \<or> ev2 = [ENTRY_SHORT price] \<and> status entry_trade \<noteq> ''Filled'' \<and>
                 \<not> pm) \<or>
            \<not> pm \<and> in_position s' \<and>
              position_entry_price s' = Some (avgFillPrice entry_trade) \<and>
              ev2 = [ENTRY_SHORT price] \<and> status entry_trade = ''Filled'') \<and>
           price_was_above_ma s' =
             (if \<not> pm \<and> current_ma70 s' \<noteq> None \<and> current_tsi s' \<noteq> None
              then Some (fgt price (the (current_ma70 s'))) else price_was_above_ma s)"
proof -
  let ?bs = "get_bar_start_time now"
  from on_tick_bar_part [OF assms, of now exit_trade entry_trade]
  obtain s1 ev1 s' ev2 where ot: "on_tick s tk now exit_trade entry_trade = Inr (s', ev1 @ ev2)"
    and ce: "check_entry_conditions (s1\<lparr>last_price := Some price\<rparr>) price entry_trade =
             Inr (s', ev2)"
    and b1: "bar_start_time s1 = Some ?bs"
    and b2: "if bar_start_time s = Some ?bs
            then (\<exists>hi lo. cb_high (current_bar s) = Some hi \<and>
                    cb_low (current_bar s) = Some lo \<and>
                    current_bar s1 = (current_bar s)\<lparr>cb_high := Some (pymax2 hi price),
                       cb_low := Some (pymin2 lo price), cb_close := Some price\<rparr>)
            else current_bar s1 = \<lparr>cb_open = Some price, cb_high = Some price,
                       cb_low = Some price, cb_close = Some price, cb_volume = Fin 0\<rparr>"
    and b3: "bars_5min s1 = bars_5min s \<and> ev1 = [] \<or>
            bar_start_time s \<noteq> None \<and> bar_start_time s \<noteq> Some ?bs \<and>
            bars_5min s1 \<noteq> [] \<and>
            Some (b_open (last (bars_5min s1))) = cb_open (current_bar s) \<and>
            Some (b_high (last (bars_5min s1))) = cb_high (current_bar s) \<and>
            Some (b_low (last (bars_5min s1))) = cb_low (current_bar s) \<and>
            Some (b_close (last (bars_5min s1))) = cb_close (current_bar s) \<and>
            b_volume (last (bars_5min s1)) = cb_volume (current_bar s) \<and>
            b_start (last (bars_5min s1)) = bar_start_time s \<and>
            set (bars_5min s1) \<subseteq> insert (last (bars_5min s1)) (set (bars_5min s))"
    and b4: "current_ma70 s1 = current_ma70 s \<and> ma70_slope s1 = ma70_slope s \<and>
            current_tsi s1 = current_tsi s \<and> current_sar s1 = current_sar s \<or>
            current_ma70 s1 \<noteq> None \<and> ma70_slope s1 \<noteq> None \<and>
            current_tsi s1 \<noteq> None \<and> current_sar s1 \<noteq> None"
    and b5: "in_position s1 = in_position s \<and>
              position_entry_price s1 = position_entry_price s \<and>
              (ev1 = [] \<or> ev1 = [EXIT_SHORT]) \<or>
            (\<exists>entry. in_position s \<and> position_entry_price s = Some entry \<and>
               status exit_trade = ''Filled'' \<and> \<not> in_position s1 \<and>
               position_entry_price s1 = None \<and>
               ev1 = [EXIT_SHORT, PNL (fsub entry (avgFillPrice exit_trade))])"
    and b6: "price_was_above_ma s1 = price_was_above_ma s"
    by blast
  let ?s1 = "s1\<lparr>last_price := Some price\<rparr>"
  have slope: "current_ma70 s \<noteq> None \<and> current_tsi s \<noteq> None \<longrightarrow> ma70_slope s \<noteq> None"
    using assms(1) by (simp add: state_ok_def)
  have slope1: "current_ma70 ?s1 \<noteq> None \<and> current_tsi ?s1 \<noteq> None \<longrightarrow> ma70_slope ?s1 \<noteq> None"
    using b4 slope by auto
  from check_entry_conditions_result [OF slope1, of price entry_trade]
  obtain s'' evs'' w where ce': "check_entry_conditions ?s1 price entry_trade = Inr (s'', evs'')"
    and res': "s'' = ?s1\<lparr>price_was_above_ma := w\<rparr> \<and>
              (evs'' = [] \<or> evs'' = [ENTRY_SHORT price] \<and> status entry_trade \<noteq> ''Filled'' \<and>
                 \<not> in_position ?s1) \<or>
            s'' = ?s1\<lparr>price_was_above_ma := w, in_position := True,
                   position_entry_price := Some (avgFillPrice entry_trade)\<rparr> \<and>
              evs'' = [ENTRY_SHORT price] \<and> status entry_trade = ''Filled'' \<and>
              \<not> in_position ?s1"
    and w': "w = (if \<not> in_position ?s1 \<and> current_ma70 ?s1 \<noteq> None \<and> current_tsi ?s1 \<noteq> None
                then Some (fgt price (the (current_ma70 ?s1))) else price_was_above_ma ?s1)"
    by blast
  have eq: "s'' = s'" "evs'' = ev2"
    using ce ce' by simp_all
  note res = res' [unfolded eq]
  have f: "bars_5min s' = bars_5min s1" "current_bar s' = current_bar s1"
    "bar_start_time s' = bar_start_time s1" "last_price s' = Some price"
    "current_ma70 s' = current_ma70 s1" "ma70_slope s' = ma70_slope s1"
    "current_tsi s' = current_tsi s1" "current_sar s' = current_sar s1"
    "price_was_above_ma s' = w"
    using res by (elim disjE conjE, simp_all)+
  have w: "w = (if \<not> in_position s1 \<and> current_ma70 s1 \<noteq> None \<and> current_tsi s1 \<noteq> None
                then Some (fgt price (the (current_ma70 s1))) else price_was_above_ma s)"
    using w' b6 by simp
  have p: "in_position s' = in_position s1 \<and> position_entry_price s' = position_entry_price s1 \<and>
              (ev2 = [] \<or> ev2 = [ENTRY_SHORT price] \<and> status entry_trade \<noteq> ''Filled'' \<and>
                 \<not> in_position s1) \<or>
            \<not> in_position s1 \<and> in_position s' \<and>
              position_entry_price s' = Some (avgFillPrice entry_trade) \<and>
              ev2 = [ENTRY_SHORT price] \<and> status entry_trade = ''Filled''"
    using res by (elim disjE conjE, simp_all)
  show ?thesis
    apply (rule exI [of _ s'], rule exI [of _ ev1], rule exI [of _ ev2],
        rule exI [of _ "in_position s1"], rule exI [of _ "position_entry_price s1"])
    unfolding f
    using ot b1 b2 b3 b4 b5 p w by (intro conjI) (assumption | rule refl)+
qed

lemma fle_refl: "\<not> is_nan a \<Longrightarrow> fle a a"
  by (cases a) simp_all

lemma pymin2_le_left: "fle lo x \<Longrightarrow> \<not> is_nan p \<Longrightarrow> fle (pymin2 lo p) x"
  by (cases lo; cases x; cases p) (simp_all add: pymin2_def)

lemma pymin2_le_right: "fle lo x \<Longrightarrow> \<not> is_nan p \<Longrightarrow> fle (pymin2 lo p) p"
  by (cases lo; cases x; cases p) (simp_all add: pymin2_def)

lemma pymax2_ge_left: "fle x hi \<Longrightarrow> \<not> is_nan p \<Longrightarrow> fle x (pymax2 hi p)"
  by (cases hi; cases x; cases p) (simp_all add: pymax2_def fgt_def)

lemma pymax2_ge_right: "fle x hi \<Longrightarrow> \<not> is_nan p \<Longrightarrow> fle p (pymax2 hi p)"
  by (cases hi; cases x; cases p) (simp_all add: pymax2_def fgt_def)

lemma ohlc_from_order:
  "fle lo op \<Longrightarrow> fle lo cl \<Longrightarrow> fle op hi \<Longrightarrow> fle cl hi \<Longrightarrow>
     fle lo (pymin2 op cl) \<and> fge hi (pymax2 op cl)"
  by (simp add: pymin2_def pymax2_def fge_def)

lemma on_tick_state_ok:
  assumes "state_ok s"
  shows "\<exists>s' evs. on_tick s tk now exit_trade entry_trade = Inr (s', evs) \<and> state_ok s'"
proof (cases "tk_last tk = None \<or> tk_last tk = Some NaN")
  case True
  then show ?thesis
    using on_tick_dropped assms by blast
next
  case False
  then obtain price where pr: "tk_last tk = Some price" "\<not> is_nan price"
    by (cases "tk_last tk") (auto simp add: is_nan_iff)
  from on_tick_result [OF assms pr, of now exit_trade entry_trade]
  obtain s' ev1 ev2 pm em where ot: "on_tick s tk now exit_trade entry_trade = Inr (s', ev1 @ ev2)"
    and bs: "bar_start_time s' = Some (get_bar_start_time now)"
    and cur: "if bar_start_time s = Some (get_bar_start_time now)
            then (\<exists>hi lo. cb_high (current_bar s) = Some hi \<and>
                    cb_low (current_bar s) = Some lo \<and>
                    current_bar s' = (current_bar s)\<lparr>cb_high := Some (pymax2 hi price),
                       cb_low := Some (pymin2 lo price), cb_close := Some price\<rparr>)
            else current_bar s' = \<lparr>cb_open = Some price, cb_high = Some price,
                       cb_low = Some price, cb_close = Some price, cb_volume = Fin 0\<rparr>"
    and ind: "current_ma70 s' = current_ma70 s \<and> ma70_slope s' = ma70_slope s \<and>
            current_tsi s' = current_tsi s \<and> current_sar s' = current_sar s \<or>
            current_ma70 s' \<noteq> None \<and> ma70_slope s' \<noteq> None \<and>
            current_tsi s' \<noteq> None \<and> current_sar s' \<noteq> None"
    and mid: "pm = in_position s \<and> em = position_entry_price s \<and>
              (ev1 = [] \<or> ev1 = [EXIT_SHORT]) \<or>
            (\<exists>entry. in_position s \<and> position_entry_price s = Some entry \<and>
               status exit_trade = ''Filled'' \<and> \<not> pm \<and> em = None \<and>
               ev1 = [EXIT_SHORT, PNL (fsub entry (avgFillPrice exit_trade))])"
    and fin: "in_position s' = pm \<and> position_entry_price s' = em \<and>
              (ev2 = [] \<or> ev2 = [ENTRY_SHORT price] \<and> status entry_trade \<noteq> ''Filled'' \<and>
                 \<not> pm) \<or>
            \<not> pm \<and> in_position s' \<and>
              position_entry_price s' = Some (avgFillPrice entry_trade) \<and>
              ev2 = [ENTRY_SHORT price] \<and> status entry_trade = ''Filled''"
    by blast
  have p: "in_position s' \<longrightarrow> position_entry_price s' \<noteq> None"
    using mid fin assms by (auto simp add: state_ok_def)
  have sl: "current_ma70 s' \<noteq> None \<and> current_tsi s' \<noteq> None \<longrightarrow> ma70_slope s' \<noteq> None"
    using ind assms by (auto simp add: state_ok_def)
  have cb: "cb_open (current_bar s') \<noteq> None \<and> cb_high (current_bar s') \<noteq> None \<and>
         cb_low (current_bar s') \<noteq> None \<and> cb_close (current_bar s') \<noteq> None"
  proof (cases "bar_start_time s = Some (get_bar_start_time now)")
    case True
    then have "cb_open (current_bar s) \<noteq> None"
      using assms by (simp add: state_ok_def)
    with True cur show ?thesis by auto
  next
    case False
    with cur show ?thesis by simp
  qed
  have "state_ok s'"
    unfolding state_ok_def using p sl cb by blast
  with ot show ?thesis by blast
qed

lemma on_tick_coupled:
  assumes "state_ok s" and "coupled fill s"
  shows "\<exists>s' evs. on_tick s tk now exit_trade entry_trade = Inr (s', evs) \<and>
           coupled (if status entry_trade = ''Filled'' \<and> (\<exists>p. ENTRY_SHORT p \<in> set evs)
                    then avgFillPrice entry_trade else fill) s'"
proof (cases "tk_last tk = None \<or> tk_last tk = Some NaN")
  case True
  then have "on_tick s tk now exit_trade entry_trade = Inr (s, [])"
    by (rule on_tick_dropped)
  then show ?thesis
    using assms(2) by simp
next
  case False
  then obtain price where pr: "tk_last tk = Some price" "\<not> is_nan price"
    by (cases "tk_last tk") (auto simp add: is_nan_iff)
  from on_tick_result [OF assms(1) pr, of now exit_trade entry_trade]
  obtain s' ev1 ev2 pm em where ot: "on_tick s tk now exit_trade entry_trade = Inr (s', ev1 @ ev2)"
    and mid: "pm = in_position s \<and> em = position_entry_price s \<and>
              (ev1 = [] \<or> ev1 = [EXIT_SHORT]) \<or>
            (\<exists>entry. in_position s \<and> position_entry_price s = Some entry \<and>
               status exit_trade = ''Filled'' \<and> \<not> pm \<and> em = None \<and>
               ev1 = [EXIT_SHORT, PNL (fsub entry (avgFillPrice exit_trade))])"
    and fin: "in_position s' = pm \<and> position_entry_price s' = em \<and>
              (ev2 = [] \<or> ev2 = [ENTRY_SHORT price] \<and> status entry_trade \<noteq> ''Filled'' \<and>
                 \<not> pm) \<or>
            \<not> pm \<and> in_position s' \<and>
              position_entry_price s' = Some (avgFillPrice entry_trade) \<and>
              ev2 = [ENTRY_SHORT price] \<and> status entry_trade = ''Filled''"
    by blast
  have noentry: "\<forall>p. ENTRY_SHORT p \<notin> set ev1"
    using mid by auto
  have m: "if pm then em = Some fill else em = None"
    using mid assms(2) by (auto simp add: coupled_def split: if_splits)
  have "coupled (if status entry_trade = ''Filled'' \<and> (\<exists>p. ENTRY_SHORT p \<in> set (ev1 @ ev2))
                    then avgFillPrice entry_trade else fill) s'"
    using fin m noentry by (auto simp add: coupled_def split: if_splits)
  with ot show ?thesis by blast
qed

lemma close_bar_coupled:
  assumes "state_ok s" and "coupled fill s" and "bar_start_time s \<noteq> None"
  shows "\<exists>s' evs. close_bar s trade = Inr (s', evs) \<and> coupled fill s'"
proof -
  have "cb_open (current_bar s) \<noteq> None \<and> cb_high (current_bar s) \<noteq> None \<and>
        cb_low (current_bar s) \<noteq> None \<and> cb_close (current_bar s) \<noteq> None"
    using assms(1,3) by (simp add: state_ok_def)
  then obtain op hi lo cl where cur: "cb_open (current_bar s) = Some op"
    "cb_high (current_bar s) = Some hi" "cb_low (current_bar s) = Some lo"
    "cb_close (current_bar s) = Some cl"
    by blast
  have pos: "in_position s \<longrightarrow> position_entry_price s \<noteq> None"
    using assms(1) by (simp add: state_ok_def)
  from close_bar_frame [OF cur pos, of trade]
  obtain sc evs where cb: "close_bar s trade = Inr (sc, evs)"
    and p: "in_position sc = in_position s \<and>
              position_entry_price sc = position_entry_price s \<and>
              (evs = [] \<or> evs = [EXIT_SHORT]) \<or>
            (\<exists>entry. in_position s \<and> position_entry_price s = Some entry \<and>
               status trade = ''Filled'' \<and> \<not> in_position sc \<and>
               position_entry_price sc = None \<and>
               evs = [EXIT_SHORT, PNL (fsub entry (avgFillPrice trade))])"
    by blast
  have "coupled fill sc"
    using p assms(2) by (auto simp add: coupled_def split: if_splits)
  with cb show ?thesis by blast
qed

lemma on_tick_ohlc:
  assumes "state_ok s" and "bar_start_time s \<noteq> None \<longrightarrow> current_ok (current_bar s)"
  shows "\<exists>s' evs. on_tick s tk now exit_trade entry_trade = Inr (s', evs) \<and> state_ok s' \<and>
           (bar_start_time s' \<noteq> None \<longrightarrow> current_ok (current_bar s')) \<and>
           (\<forall>b \<in> set (bars_5min s'). b \<in> set (bars_5min s) \<or> ohlc_ok b)"
proof (cases "tk_last tk = None \<or> tk_last tk = Some NaN")
  case True
  then have "on_tick s tk now exit_trade entry_trade = Inr (s, [])"
    by (rule on_tick_dropped)
  then show ?thesis
    using assms by auto
next
  case False
  then obtain price where pr: "tk_last tk = Some price" "\<not> is_nan price"
    by (cases "tk_last tk") (auto simp add: is_nan_iff)
  from on_tick_state_ok [OF assms(1), of tk now exit_trade entry_trade]
  obtain s' evs where ot: "on_tick s tk now exit_trade entry_trade = Inr (s', evs)"
    and ok: "state_ok s'"
    by blast
  from on_tick_result [OF assms(1) pr, of now exit_trade entry_trade] ot
  have cur: "if bar_start_time s = Some (get_bar_start_time now)
            then (\<exists>hi lo. cb_high (current_bar s) = Some hi \<and>
                    cb_low (current_bar s) = Some lo \<and>
                    current_bar s' = (current_bar s)\<lparr>cb_high := Some (pymax2 hi price),
                       cb_low := Some (pymin2 lo price), cb_close := Some price\<rparr>)
            else current_bar s' = \<lparr>cb_open = Some price, cb_high = Some price,
                       cb_low = Some price, cb_close = Some price, cb_volume = Fin 0\<rparr>"
    and bars: "bars_5min s' = bars_5min s \<or>
            bar_start_time s \<noteq> None \<and>
            Some (b_open (last (bars_5min s'))) = cb_open (current_bar s) \<and>
            Some (b_high (last (bars_5min s'))) = cb_high (current_bar s) \<and>
            Some (b_low (last (bars_5min s'))) = cb_low (current_bar s) \<and>
            Some (b_close (last (bars_5min s'))) = cb_close (current_bar s) \<and>
            set (bars_5min s') \<subseteq> insert (last (bars_5min s')) (set (bars_5min s))"
    by auto
  have c: "current_ok (current_bar s')"
  proof (cases "bar_start_time s = Some (get_bar_start_time now)")
    case True
    with cur obtain hi lo where hl: "cb_high (current_bar s) = Some hi"
      "cb_low (current_bar s) = Some lo"
      "current_bar s' = (current_bar s)\<lparr>cb_high := Some (pymax2 hi price),
                       cb_low := Some (pymin2 lo price), cb_close := Some price\<rparr>"
      by auto
    have "current_ok (current_bar s)"
      using assms(2) True by simp
    then obtain op cl where oc: "cb_open (current_bar s) = Some op"
      "cb_close (current_bar s) = Some cl" "fle lo op" "fle lo cl" "fle op hi" "fle cl hi"
      using hl(1,2) by (auto simp add: current_ok_def split: option.splits)
    show ?thesis
      using oc hl pr(2)
      by (simp add: current_ok_def pymin2_le_left pymin2_le_right pymax2_ge_left
          pymax2_ge_right)
  next
    case False
    with cur show ?thesis
      using pr(2) by (simp add: current_ok_def fle_refl)
  qed
  have b: "\<forall>b \<in> set (bars_5min s'). b \<in> set (bars_5min s) \<or> ohlc_ok b"
    using bars
  proof
    assume "bars_5min s' = bars_5min s"
    then show ?thesis by simp
  next
    assume a: "bar_start_time s \<noteq> None \<and>
            Some (b_open (last (bars_5min s'))) = cb_open (current_bar s) \<and>
            Some (b_high (last (bars_5min s'))) = cb_high (current_bar s) \<and>
            Some (b_low (last (bars_5min s'))) = cb_low (current_bar s) \<and>
            Some (b_close (last (bars_5min s'))) = cb_close (current_bar s) \<and>
            set (bars_5min s') \<subseteq> insert (last (bars_5min s')) (set (bars_5min s))"
    then have "current_ok (current_bar s)"
      using assms(2) by simp
    then have "ohlc_ok (last (bars_5min s'))"
      using a ohlc_from_order [of "b_low (last (bars_5min s'))" "b_open (last (bars_5min s'))"
          "b_close (last (bars_5min s'))" "b_high (last (bars_5min s'))"]
      by (auto simp add: current_ok_def ohlc_ok_def split: option.splits)
    then show ?thesis
      using a by auto
  qed
  show ?thesis
    using ot ok c b by blast
qed

text \<open>The definitions unfolded to run the handlers on the example inputs.\<close>

lemmas handler_defs = on_tick_def check_entry_conditions_def enter_short_def close_bar_def
  update_indicators_def check_exit_conditions_def exit_short_def get_bar_start_time_def
  TIMEFRAME_MINUTES_def MA_PERIOD_def max_bars_def TSI_SLOW_def TSI_THRESHOLD_def
  pymax2_def pymin2_def fgt_def fge_def fsub_def Let_def

lemmas example_defs = flat_bot_def short_bot_def bot_init_def tick_at_def filled_at_def
  pending_def clock_0003_def clock_0006_def

section \<open>Exit signal\<close>

text \<open>
  C2. When a bar is closed while the bot is in position, \<open>_close_bar\<close> appends the bar,
  and with the stop value then held in \<open>current_sar\<close> it calls \<open>_exit_short\<close> exactly when
  the high of the closed bar is greater than or equal to the stop. If the broker reports the
  order as filled, the bot is flat again, the entry price is cleared, and the logged P&L is the
  entry price minus the reported fill price; otherwise the position is kept.
\<close>

theorem exit_short_on_bar_close:
  assumes "in_position s" and "position_entry_price s = Some entry"
    and "cb_open (current_bar s) = Some op" and "cb_high (current_bar s) = Some hi"
    and "cb_low (current_bar s) = Some lo" and "cb_close (current_bar s) = Some cl"
  shows "\<exists>s' evs. close_bar s trade = Inr (s', evs) \<and>
           b_high (last (bars_5min s')) = hi \<and>
           (\<forall>stop. current_sar s' = Some stop \<longrightarrow>
              (EXIT_SHORT \<in> set evs \<longleftrightarrow> fge hi stop) \<and>
              (fge hi stop \<and> status trade = ''Filled'' \<longrightarrow>
                 \<not> in_position s' \<and> position_entry_price s' = None \<and>
                 evs = [EXIT_SHORT, PNL (fsub entry (avgFillPrice trade))]) \<and>
              (\<not> (fge hi stop \<and> status trade = ''Filled'') \<longrightarrow>
                 in_position s' \<and> position_entry_price s' = Some entry))"
proof -
  have pos: "in_position s \<longrightarrow> position_entry_price s \<noteq> None"
    using assms(2) by simp
  from close_bar_result [OF assms(3-6) pos, of trade]
  obtain s1 s' evs where cb: "close_bar s trade = Inr (s', evs)"
    and ce: "check_exit_conditions s1 trade = Inr (s', evs)"
    and ne: "bars_5min s1 \<noteq> []"
    and la: "b_high (last (bars_5min s1)) = hi"
    and p1: "in_position s1" "position_entry_price s1 = Some entry"
    using assms(1,2) by auto
  have "b_high (last (bars_5min s')) = hi \<and>
        (\<forall>stop. current_sar s' = Some stop \<longrightarrow>
              (EXIT_SHORT \<in> set evs \<longleftrightarrow> fge hi stop) \<and>
              (fge hi stop \<and> status trade = ''Filled'' \<longrightarrow>
                 \<not> in_position s' \<and> position_entry_price s' = None \<and>
                 evs = [EXIT_SHORT, PNL (fsub entry (avgFillPrice trade))]) \<and>
              (\<not> (fge hi stop \<and> status trade = ''Filled'') \<longrightarrow>
                 in_position s' \<and> position_entry_price s' = Some entry))"
    using ce ne la p1
    by (auto simp add: check_exit_conditions_def exit_short_def Let_def
        split: option.splits if_splits)
  with cb show ?thesis by blast
qed

theorem exit_short_on_bar_close_witness:
  "in_position short_bot \<and> position_entry_price short_bot = Some (Fin 98) \<and>
   cb_open (current_bar short_bot) = Some (Fin 100) \<and>
   cb_high (current_bar short_bot) = Some (Fin 106) \<and>
   cb_low (current_bar short_bot) = Some (Fin 99) \<and>
   cb_close (current_bar short_bot) = Some (Fin 104) \<and>
   fge (Fin 106) (Fin 105) \<and>
   close_bar short_bot (filled_at 107) =
     Inr (short_bot\<lparr>bars_5min := [\<lparr>b_start = bar_start_time short_bot, b_open = Fin 100,
                                         b_high = Fin 106, b_low = Fin 99, b_close = Fin 104,
                                         b_volume = Fin 0\<rparr>],
                      in_position := False, position_entry_price := None\<rparr>,
          [EXIT_SHORT, PNL (Fin (- 9))])"
proof -
  have h: "in_position short_bot" "position_entry_price short_bot = Some (Fin 98)"
    "cb_open (current_bar short_bot) = Some (Fin 100)"
    "cb_high (current_bar short_bot) = Some (Fin 106)"
    "cb_low (current_bar short_bot) = Some (Fin 99)"
    "cb_close (current_bar short_bot) = Some (Fin 104)"
    by (simp_all add: short_bot_def flat_bot_def bot_init_def)
  have sar: "current_sar short_bot = Some (Fin 105)" "bars_5min short_bot = []"
    by (simp_all add: short_bot_def flat_bot_def bot_init_def)
  from exit_short_on_bar_close [OF h, of "filled_at 107"]
  obtain s' evs where cb: "close_bar short_bot (filled_at 107) = Inr (s', evs)"
    and ex: "\<forall>stop. current_sar s' = Some stop \<longrightarrow>
               (fge (Fin 106) stop \<and> status (filled_at 107) = ''Filled'' \<longrightarrow>
                  evs = [EXIT_SHORT, PNL (fsub (Fin 98) (avgFillPrice (filled_at 107)))])"
    by blast
  have "close_bar short_bot (filled_at 107) =
     Inr (short_bot\<lparr>bars_5min := [\<lparr>b_start = bar_start_time short_bot, b_open = Fin 100,
                                         b_high = Fin 106, b_low = Fin 99, b_close = Fin 104,
                                         b_volume = Fin 0\<rparr>],
                      in_position := False, position_entry_price := None\<rparr>,
          [EXIT_SHORT, PNL (Fin (- 9))])"
    using h sar
    by (simp add: close_bar_def update_indicators_def MA_PERIOD_def max_bars_def TSI_SLOW_def
        check_exit_conditions_def exit_short_def fge_def fsub_def filled_at_def Let_def
        short_bot_def flat_bot_def bot_init_def)
  with h show ?thesis by (simp add: fge_def)
qed

section \<open>Entry signal\<close>



section \<open>Orders that are not filled\<close>

text \<open>
  C3. When the broker reports any status other than Filled, \<open>_enter_short\<close> and
  \<open>_exit_short\<close> leave the whole state as it was, \<open>in_position\<close> and
  \<open>position_entry_price\<close> included; only the order has been placed. Nothing is kept for a
  retry, so the next tick or bar close is checked from the same state.
\<close>

theorem order_not_filled_no_transition:
  "status trade \<noteq> ''Filled'' \<Longrightarrow>
     enter_short s price trade = (s, [ENTRY_SHORT price]) \<and>
     exit_short s trade = Inr (s, [EXIT_SHORT])"
  by (simp add: enter_short_def exit_short_def)

theorem order_not_filled_no_transition_witness:
  "status pending \<noteq> ''Filled'' \<and>
   enter_short flat_bot (Fin 99) pending = (flat_bot, [ENTRY_SHORT (Fin 99)]) \<and>
   exit_short flat_bot pending = Inr (flat_bot, [EXIT_SHORT])"
proof -
  have h: "status pending \<noteq> ''Filled''"
    by (simp add: pending_def)
  from order_not_filled_no_transition [OF h, of flat_bot "Fin 99"] h show ?thesis
    by simp
qed

section \<open>Ticks without a price\<close>

text \<open>
  C7 as stated fails for an infinite price: \<open>_on_tick\<close> tests for None and NaN only, so a
  tick whose last price is \<open>inf\<close> opens a bar with that price.
\<close>

theorem infinite_tick_changes_state:
  "on_tick bot_init \<lparr>tk_last = Some PInf\<rparr> clock_0003 pending pending =
     Inr (bot_init\<lparr>bar_start_time := Some (clock_0003\<lparr>dt_minute := 0, dt_second := 0,
                                                       dt_microsecond := 0\<rparr>),
                   current_bar := \<lparr>cb_open = Some PInf, cb_high = Some PInf,
                                   cb_low = Some PInf, cb_close = Some PInf,
                                   cb_volume = Fin 0\<rparr>,
                   last_price := Some PInf\<rparr>, [])"
  by (simp add: on_tick_def bot_init_def check_entry_conditions_def get_bar_start_time_def
      clock_0003_def TIMEFRAME_MINUTES_def)

text \<open>
  C7, amended. A tick whose last price is None or NaN is dropped: the state is returned as
  it was and nothing is emitted.
\<close>

theorem missing_or_nan_tick_dropped:
  "tk_last tk = None \<or> tk_last tk = Some NaN \<Longrightarrow>
     on_tick s tk now exit_trade entry_trade = Inr (s, [])"
  by (auto simp add: on_tick_def)

theorem missing_or_nan_tick_dropped_witness:
  "tk_last \<lparr>tk_last = Some NaN\<rparr> = Some NaN \<and>
   on_tick flat_bot \<lparr>tk_last = Some NaN\<rparr> clock_0003 pending (filled_at 98) =
     Inr (flat_bot, [])"
  using missing_or_nan_tick_dropped [of "\<lparr>tk_last = Some NaN\<rparr>" flat_bot clock_0003 pending
      "filled_at 98"]
  by simp

section \<open>The trend-reversal stop\<close>

text \<open>
  The loop of \<open>calculate_parabolic_sar\<close> against the step of the specification: the loop
  variables before step \<open>i\<close> stand for the state whose stop value is \<open>sar[i-1]\<close>, and the
  loop body assigns to \<open>sar[i]\<close>, \<open>af\<close>, \<open>ep\<close> and \<open>uptrend\<close> what \<open>trend_step\<close> gives for
  the bars \<open>i-1\<close>, \<open>i-2\<close> (or \<open>i-1\<close> again when \<open>i = 1\<close>) and \<open>i\<close>.
\<close>

lemma pymin3_cap:
  "\<not> is_nan l1 \<Longrightarrow> \<not> is_nan l2 \<Longrightarrow> pymin3 s l1 l2 = cap_at s (lowest l1 l2)"
  by (cases s; cases l1; cases l2) (simp_all add: pymin3_def pymin2_def cap_at_def lowest_def)

lemma pymax3_floor:
  "\<not> is_nan h1 \<Longrightarrow> \<not> is_nan h2 \<Longrightarrow> pymax3 s h1 h2 = floor_at s (highest h1 h2)"
  by (cases s; cases h1; cases h2)
     (simp_all add: pymax3_def pymax2_def fgt_def floor_at_def highest_def)

lemma pymin2_cap: "pymin2 x m = cap_at x m"
  by (simp add: pymin2_def cap_at_def)

lemma psar_body_step:
  assumes "0 < i" and "i < length high" and "length low = length high"
    and "list_all (\<lambda>v. \<not> is_nan v) high" and "list_all (\<lambda>v. \<not> is_nan v) low"
  shows "psar_body high low af_start af_max i v =
           (let st' = trend_step af_start af_max (high ! (i - 1), low ! (i - 1))
                        (if 2 \<le> i then (high ! (i - 2), low ! (i - 2))
                         else (high ! (i - 1), low ! (i - 1)))
                        (high ! i, low ! i)
                        \<lparr>stop_value = sar v ! (i - 1), accel = af v, extreme = ep v,
                         rising = uptrend v\<rparr>
            in Inr (v\<lparr>sar := (sar v)[i := stop_value st'], af := accel st',
                      uptrend := rising st', ep := extreme st'\<rparr>))"
proof -
  have nn: "\<And>k. k < length high \<Longrightarrow> \<not> is_nan (high ! k) \<and> \<not> is_nan (low ! k)"
    using assms(3,4,5) by (simp add: list_all_length)
  have a: "\<not> is_nan (high ! (i - 1))" "\<not> is_nan (low ! (i - 1))"
    "\<not> is_nan (high ! (i - 2))" "\<not> is_nan (low ! (i - 2))"
    using nn [of "i - 1"] nn [of "i - 2"] assms(2) by simp_all
  consider (one) "i = 1" | (more) "2 \<le> i"
    using assms(1) by linarith
  then show ?thesis
  proof cases
    case one
    have b: "\<not> is_nan (high ! 0)" "\<not> is_nan (low ! 0)"
      using a one by simp_all
    show ?thesis
      using assms(2,3) one b
      by (cases "uptrend v")
         (simp_all add: psar_body_def trend_step_def Let_def pymin3_cap pymax3_floor pymin2_cap)
  next
    case more
    show ?thesis
      using assms(2,3) more a
      by (cases "uptrend v")
         (simp_all add: psar_body_def trend_step_def Let_def pymin3_cap pymax3_floor pymin2_cap)
  qed
qed


lemma psar_loop_refines:
  assumes "length low = length high"
    and "list_all (\<lambda>v. \<not> is_nan v) high" and "list_all (\<lambda>v. \<not> is_nan v) low"
  shows "0 < i \<Longrightarrow> i \<le> length high \<Longrightarrow> length (sar v) = length high \<Longrightarrow>
           \<exists>v'. psar_loop high low af_start af_max i v = Inr v' \<and>
             sar v' = take i (sar v) @
               stops_from af_start af_max
                 \<lparr>stop_value = sar v ! (i - 1), accel = af v, extreme = ep v,
                  rising = uptrend v\<rparr>
                 (high ! (i - 1), low ! (i - 1))
                 (if 2 \<le> i then (high ! (i - 2), low ! (i - 2))
                  else (high ! (i - 1), low ! (i - 1)))
                 (drop i (zip high low))"
proof (induction "length high - i" arbitrary: i v)
  case 0
  then have "i = length high" by simp
  then show ?case
    using "0.prems"(3) assms(1) by (subst psar_loop.simps) simp
next
  case (Suc k)
  then have lt: "i < length high" by simp
  let ?st = "\<lparr>stop_value = sar v ! (i - 1), accel = af v, extreme = ep v,
                  rising = uptrend v\<rparr>"
  let ?p1 = "(high ! (i - 1), low ! (i - 1))"
  let ?p2 = "if 2 \<le> i then (high ! (i - 2), low ! (i - 2)) else (high ! (i - 1), low ! (i - 1))"
  let ?st' = "trend_step af_start af_max ?p1 ?p2 (high ! i, low ! i) ?st"
  let ?v1 = "v\<lparr>sar := (sar v)[i := stop_value ?st'], af := accel ?st',
                      uptrend := rising ?st', ep := extreme ?st'\<rparr>"
  have body: "psar_body high low af_start af_max i v = Inr ?v1"
    using psar_body_step [OF Suc.prems(1) lt assms, of af_start af_max v]
    by (simp add: Let_def)
  have k: "k = length high - Suc i"
    using Suc.hyps(2) by simp
  have len1: "length (sar ?v1) = length high"
    using Suc.prems(3) by simp
  have b: "0 < Suc i" "Suc i \<le> length high"
    using lt by simp_all
  from Suc.hyps(1) [OF k b len1]
  obtain v' where loop: "psar_loop high low af_start af_max (Suc i) ?v1 = Inr v'"
    and res: "sar v' = take (Suc i) (sar ?v1) @
               stops_from af_start af_max
                 \<lparr>stop_value = sar ?v1 ! (Suc i - 1), accel = af ?v1, extreme = ep ?v1,
                  rising = uptrend ?v1\<rparr>
                 (high ! (Suc i - 1), low ! (Suc i - 1))
                 (if 2 \<le> Suc i then (high ! (Suc i - 2), low ! (Suc i - 2))
                  else (high ! (Suc i - 1), low ! (Suc i - 1)))
                 (drop (Suc i) (zip high low))"
    by blast
  have st1: "\<lparr>stop_value = sar ?v1 ! (Suc i - 1), accel = af ?v1, extreme = ep ?v1,
                  rising = uptrend ?v1\<rparr> = ?st'"
    using lt Suc.prems(3) by simp
  have tk: "take (Suc i) (sar ?v1) = take i (sar v) @ [stop_value ?st']"
    using lt Suc.prems(3) by (simp add: take_Suc_conv_app_nth)
  have p: "(high ! (Suc i - 1), low ! (Suc i - 1)) = (high ! i, low ! i)"
    "(if 2 \<le> Suc i then (high ! (Suc i - 2), low ! (Suc i - 2))
      else (high ! (Suc i - 1), low ! (Suc i - 1))) = ?p1"
    using Suc.prems(1) by (simp_all add: numeral_2_eq_2)
  have dr: "drop i (zip high low) = (high ! i, low ! i) # drop (Suc i) (zip high low)"
    using lt assms(1) by (simp add: Cons_nth_drop_Suc [symmetric])
  have unf: "stops_from af_start af_max ?st ?p1 ?p2 (drop i (zip high low)) =
      stop_value ?st' # stops_from af_start af_max ?st' (high ! i, low ! i) ?p1
        (drop (Suc i) (zip high low))"
    unfolding dr by (simp only: stops_from.simps Let_def)
  have "psar_loop high low af_start af_max i v = Inr v'"
    using lt body loop by (subst psar_loop.simps) simp
  moreover have "sar v' = take i (sar v) @ stops_from af_start af_max ?st ?p1 ?p2
      (drop i (zip high low))"
    unfolding unf res st1 tk p using Suc.prems(1) by simp
  ultimately show ?case by blast
qed

text \<open>
  C4. For series of highs and lows of the same positive length without NaN,
  \<open>calculate_parabolic_sar\<close> returns the series of \<open>trendReversalStop\<close>: bar by bar the stop
  is projected as \<open>stop + af * (ep - stop)\<close> and capped, in an uptrend, at the lowest of the
  lows of the one or two bars before (floored at the highest of their highs in a downtrend);
  a low below the capped stop flips an uptrend, with the stop at the extreme point so far,
  the extreme point at that low and the acceleration factor back at \<open>afStart\<close> (a high above
  the floored stop flips a downtrend likewise); without a flip, a new extreme raises the
  acceleration factor by \<open>afStart\<close>, capped at \<open>afMax\<close>.
\<close>

theorem parabolic_sar_follows_spec:
  assumes "high \<noteq> []" and "length low = length high"
    and "list_all (\<lambda>v. \<not> is_nan v) high" and "list_all (\<lambda>v. \<not> is_nan v) low"
  shows "calculate_parabolic_sar high low af_start af_max =
           Inr (trendReversalStop high low af_start af_max)"
proof -
  obtain h0 hs where h: "high = h0 # hs" using assms(1) by (cases high) auto
  obtain l0 ls where l: "low = l0 # ls" using assms(2) h by (cases low) auto
  let ?v0 = "\<lparr>sar = (replicate (length high) NaN)[0 := h0], af = af_start,
               uptrend = True, ep = l0\<rparr>"
  have "0 < (1::nat)" "1 \<le> length high" "length (sar ?v0) = length high"
    using h by simp_all
  from psar_loop_refines [OF assms(2,3,4) this, of af_start af_max]
  obtain v' where loop: "psar_loop high low af_start af_max 1 ?v0 = Inr v'"
    and res: "sar v' = take 1 (sar ?v0) @
               stops_from af_start af_max
                 \<lparr>stop_value = sar ?v0 ! (1 - 1), accel = af ?v0, extreme = ep ?v0,
                  rising = uptrend ?v0\<rparr>
                 (high ! (1 - 1), low ! (1 - 1))
                 (if 2 \<le> (1::nat) then (high ! (1 - 2), low ! (1 - 2))
                  else (high ! (1 - 1), low ! (1 - 1)))
                 (drop 1 (zip high low))"
    by blast
  have "sar v' = trendReversalStop high low af_start af_max"
    unfolding res by (simp add: h l trendReversalStop_def)
  then show ?thesis
    using loop by (simp add: calculate_parabolic_sar_def h l)
qed

theorem parabolic_sar_follows_spec_witness:
  "[Fin 10, Fin 11, Fin 12, Fin 9] \<noteq> [] \<and>
   length [Fin 8, Fin 9, Fin 10, Fin 7] = length [Fin 10, Fin 11, Fin 12, Fin 9] \<and>
   list_all (\<lambda>v. \<not> is_nan v) [Fin 10, Fin 11, Fin 12, Fin 9] \<and>
   list_all (\<lambda>v. \<not> is_nan v) [Fin 8, Fin 9, Fin 10, Fin 7] \<and>
   calculate_parabolic_sar [Fin 10, Fin 11, Fin 12, Fin 9] [Fin 8, Fin 9, Fin 10, Fin 7]
     PSAR_AF PSAR_MAX_AF = Inr [Fin 10, Fin 8, Fin 8, Fin 12]"
proof -
  have h: "[Fin 10, Fin 11, Fin 12, Fin 9] \<noteq> []"
    "length [Fin 8, Fin 9, Fin 10, Fin 7] = length [Fin 10, Fin 11, Fin 12, Fin 9]"
    "list_all (\<lambda>v. \<not> is_nan v) [Fin 10, Fin 11, Fin 12, Fin 9]"
    "list_all (\<lambda>v. \<not> is_nan v) [Fin 8, Fin 9, Fin 10, Fin 7]"
    by simp_all
  have "trendReversalStop [Fin 10, Fin 11, Fin 12, Fin 9] [Fin 8, Fin 9, Fin 10, Fin 7]
      PSAR_AF PSAR_MAX_AF = [Fin 10, Fin 8, Fin 8, Fin 12]"
    by (simp add: trendReversalStop_def trend_step_def cap_at_def lowest_def fgt_def fsub_def
        PSAR_AF_def PSAR_MAX_AF_def Let_def)
  with parabolic_sar_follows_spec [OF h, of PSAR_AF PSAR_MAX_AF] h show ?thesis
    by simp
qed

section \<open>The oscillator in exact arithmetic\<close>

text \<open>
  With finite closes and spans of at least 1, and with the arithmetic of finite values taken
  as exact, both smoothings of the momentum stay within the smoothings of its absolute value,
  so every value of \<open>calculate_tsi\<close> is NaN or lies between \<open>-100\<close> and \<open>100\<close>. The rounding
  of the quotient \<open>100 * ema_fast / abs_ema_fast\<close> in binary floating point is outside this
  model.
\<close>

lemma dominated_cases:
  "dominated a b \<longleftrightarrow> (a = NaN \<and> b = NaN) \<or> (\<exists>x y. a = Fin x \<and> b = Fin y \<and> \<bar>x\<bar> \<le> y)"
  by (cases a; cases b) (simp_all add: dominated_def)

lemma dominated_fabs: "is_nan a \<or> is_finite a \<Longrightarrow> dominated a (fabs a)"
  by (cases a) (simp_all add: dominated_def)

lemma fsub_finite: "is_finite a \<Longrightarrow> is_finite b \<Longrightarrow> is_finite (fsub a b)"
  by (cases a; cases b) (simp_all add: fsub_def)

lemma pd_diff_finite:
  "list_all is_finite xs \<Longrightarrow> list_all (\<lambda>v. is_nan v \<or> is_finite v) (pd_diff xs)"
proof (cases xs)
  case Nil
  then show ?thesis by simp
next
  case (Cons x rest)
  assume fin: "list_all is_finite xs"
  have "\<forall>p \<in> set (zip rest (x # rest)). is_finite (fsub (fst p) (snd p))"
  proof
    fix p
    assume p: "p \<in> set (zip rest (x # rest))"
    obtain a b where ab: "p = (a, b)" by (cases p)
    have "a \<in> set rest" "b \<in> set (x # rest)"
      using p ab set_zip_leftD [of a b rest "x # rest"] set_zip_rightD [of a b rest "x # rest"]
      by simp_all
    then have "is_finite a" "is_finite b"
      using fin Cons by (auto simp add: list_all_iff)
    then show "is_finite (fsub (fst p) (snd p))"
      using ab by (simp add: fsub_finite)
  qed
  then show ?thesis
    using Cons by (simp add: list_all_iff case_prod_beta)
qed

lemma pd_diff_dominated:
  assumes "list_all is_finite xs"
  shows "list_all2 dominated (pd_diff xs) (map fabs (pd_diff xs))"
proof -
  have "\<forall>v \<in> set (pd_diff xs). dominated v (fabs v)"
    using pd_diff_finite [OF assms] by (simp add: list_all_iff dominated_fabs)
  then show ?thesis
    by (simp add: list_all2_conv_all_nth)
qed

lemma ewm_update_dominated:
  assumes "0 < alpha" and "0 \<le> ow" and "\<bar>a\<bar> \<le> b" and "\<bar>c\<bar> \<le> d"
  shows "dominated
           (if Fin a \<noteq> Fin c
            then fdiv (fadd (fmul (Fin ow) (Fin a)) (fmul (Fin alpha) (Fin c))) (Fin (ow + alpha))
            else Fin a)
           (if Fin b \<noteq> Fin d
            then fdiv (fadd (fmul (Fin ow) (Fin b)) (fmul (Fin alpha) (Fin d))) (Fin (ow + alpha))
            else Fin b)"
proof -
  have pos: "0 < ow + alpha" using assms(1,2) by simp
  have g: "\<And>u v. (if Fin u \<noteq> Fin v
            then fdiv (fadd (fmul (Fin ow) (Fin u)) (fmul (Fin alpha) (Fin v))) (Fin (ow + alpha))
            else Fin u) = Fin ((ow * u + alpha * v) / (ow + alpha))"
    using pos by (auto simp add: field_simps)
  have "\<bar>ow * a + alpha * c\<bar> \<le> \<bar>ow * a\<bar> + \<bar>alpha * c\<bar>"
    by (rule abs_triangle_ineq)
  also have "\<dots> = ow * \<bar>a\<bar> + alpha * \<bar>c\<bar>"
    using assms(1,2) by (simp add: abs_mult)
  also have "\<dots> \<le> ow * b + alpha * d"
    using assms by (simp add: add_mono mult_left_mono)
  finally have "\<bar>(ow * a + alpha * c) / (ow + alpha)\<bar> \<le> (ow * b + alpha * d) / (ow + alpha)"
    using pos by (simp add: divide_right_mono)
  then show ?thesis
    unfolding g by (simp add: dominated_def)
qed

lemma ewm_loop_dominated:
  assumes "0 < alpha" and "alpha \<le> 1"
  shows "0 \<le> ow \<Longrightarrow> dominated w1 w2 \<Longrightarrow> list_all2 dominated xs ys \<Longrightarrow>
           list_all2 dominated (ewm_loop alpha w1 ow xs) (ewm_loop alpha w2 ow ys)"
proof (induction xs arbitrary: ys w1 w2 ow)
  case Nil
  then show ?case by simp
next
  case (Cons x xs)
  from Cons.prems(3) obtain y ys' where ys: "ys = y # ys'" and xy: "dominated x y"
    and rest: "list_all2 dominated xs ys'"
    by (cases ys) auto
  have ow': "0 \<le> ow * (1 - alpha)"
    using Cons.prems(1) assms(2) by simp
  from Cons.prems(2) consider (wn) "w1 = NaN" "w2 = NaN"
    | (wf) a b where "w1 = Fin a" "w2 = Fin b" "\<bar>a\<bar> \<le> b"
    unfolding dominated_cases by blast
  then show ?case
  proof cases
    case wn
    from xy consider (xn) "x = NaN" "y = NaN"
      | (xf) c d where "x = Fin c" "y = Fin d" "\<bar>c\<bar> \<le> d"
      unfolding dominated_cases by blast
    then show ?thesis
    proof cases
      case xn
      with wn ys Cons.IH [OF Cons.prems(1) Cons.prems(2) rest] show ?thesis
        by (simp add: dominated_def)
    next
      case xf
      with wn ys Cons.IH [OF Cons.prems(1) xy rest] xy show ?thesis
        by simp
    qed
  next
    case wf
    from xy consider (xn) "x = NaN" "y = NaN"
      | (xf) c d where "x = Fin c" "y = Fin d" "\<bar>c\<bar> \<le> d"
      unfolding dominated_cases by blast
    then show ?thesis
    proof cases
      case xn
      with wf ys Cons.IH [OF ow' Cons.prems(2) rest] Cons.prems(2) show ?thesis
        by simp
    next
      case xf
      let ?w1 = "if Fin a \<noteq> Fin c
            then fdiv (fadd (fmul (Fin (ow * (1 - alpha))) (Fin a)) (fmul (Fin alpha) (Fin c)))
                   (Fin (ow * (1 - alpha) + alpha))
            else Fin a"
      let ?w2 = "if Fin b \<noteq> Fin d
            then fdiv (fadd (fmul (Fin (ow * (1 - alpha))) (Fin b)) (fmul (Fin alpha) (Fin d)))
                   (Fin (ow * (1 - alpha) + alpha))
            else Fin b"
      have d: "dominated ?w1 ?w2"
        by (rule ewm_update_dominated [OF assms(1) ow' wf(3) xf(3)])
      have one: "(0::real) \<le> 1" by simp
      have e1: "ewm_loop alpha w1 ow (x # xs) = ?w1 # ewm_loop alpha ?w1 1 xs"
        using wf xf by (simp add: Let_def)
      have e2: "ewm_loop alpha w2 ow ys = ?w2 # ewm_loop alpha ?w2 1 ys'"
        using wf xf ys by (simp add: Let_def)
      show ?thesis
        unfolding e1 e2 using d Cons.IH [OF one d rest] by simp
    qed
  qed
qed

lemma ewm_mean_dominated:
  assumes "1 \<le> spn" and "list_all2 dominated xs ys"
  shows "\<exists>us vs. ewm_mean spn xs = Inr us \<and> ewm_mean spn ys = Inr vs \<and>
           list_all2 dominated us vs"
proof (cases xs)
  case Nil
  with assms show ?thesis by (simp add: ewm_mean_def)
next
  case (Cons x xs')
  with assms(2) obtain y ys' where ys: "ys = y # ys'" and xy: "dominated x y"
    and rest: "list_all2 dominated xs' ys'"
    by (cases ys) auto
  have a: "0 < 2 / (real_of_int spn + 1)" "2 / (real_of_int spn + 1) \<le> 1"
    using assms(1) by simp_all
  have "list_all2 dominated (ewm_loop (2 / (real_of_int spn + 1)) x 1 xs')
          (ewm_loop (2 / (real_of_int spn + 1)) y 1 ys')"
    by (rule ewm_loop_dominated [OF a _ xy rest]) simp
  then show ?thesis
    using assms(1) Cons ys xy by (simp add: ewm_mean_def)
qed

lemma tsi_value_range:
  assumes "dominated a b"
  shows "is_nan (fdiv (fmul (Fin 100) a) b) \<or>
         (\<exists>r. fdiv (fmul (Fin 100) a) b = Fin r \<and> - 100 \<le> r \<and> r \<le> 100)"
proof -
  from assms consider "a = NaN" "b = NaN" | x y where "a = Fin x" "b = Fin y" "\<bar>x\<bar> \<le> y"
    unfolding dominated_cases by blast
  then show ?thesis
  proof cases
    case 1
    then show ?thesis by simp
  next
    case 2
    show ?thesis
    proof (cases "y = 0")
      case True
      with 2 show ?thesis by (simp add: inf_of_sign_def)
    next
      case False
      with 2 have y: "0 < y" by simp
      have xy: "x \<le> y" "- y \<le> x"
        using 2(3) by linarith+
      have "100 * x / y \<le> 100"
        using y xy(1) by (simp add: pos_divide_le_eq)
      moreover have "- 100 \<le> 100 * x / y"
        using y xy(2) by (simp add: pos_le_divide_eq)
      ultimately show ?thesis
        using 2 False by simp
    qed
  qed
qed


lemma tsi_range:
  assumes "list_all is_finite close" and "1 \<le> fast" and "1 \<le> slow"
  shows "\<exists>tsi. calculate_tsi close fast slow = Inr tsi \<and> length tsi = length close \<and>
           (\<forall>v \<in> set tsi. is_nan v \<or> (\<exists>r. v = Fin r \<and> - 100 \<le> r \<and> r \<le> 100))"
proof -
  from ewm_mean_dominated [OF assms(3) pd_diff_dominated [OF assms(1)]]
  obtain es as where es: "ewm_mean slow (pd_diff close) = Inr es"
    and as: "ewm_mean slow (map fabs (pd_diff close)) = Inr as"
    and d1: "list_all2 dominated es as"
    by blast
  from ewm_mean_dominated [OF assms(2) d1]
  obtain ef af where ef: "ewm_mean fast es = Inr ef" and af: "ewm_mean fast as = Inr af"
    and d2: "list_all2 dominated ef af"
    by blast
  let ?tsi = "map (\<lambda>(a, b). fdiv (fmul (Fin 100) a) b) (zip ef af)"
  have c: "calculate_tsi close fast slow = Inr ?tsi"
    by (simp add: calculate_tsi_def es as ef af)
  have l1: "length es = length (pd_diff close)"
    using ewm_mean_ok [OF assms(3), of "pd_diff close"] es by simp
  have l2: "length ef = length es"
    using ewm_mean_ok [OF assms(2), of es] ef by simp
  have l3: "length (pd_diff close) = length close"
    by (cases close) simp_all
  have len: "length ?tsi = length close"
    using list_all2_lengthD [OF d2] l1 l2 l3 by simp
  have "\<forall>p \<in> set (zip ef af). dominated (fst p) (snd p)"
    using d2 by (auto simp add: list_all2_iff)
  then have "\<forall>v \<in> set ?tsi. is_nan v \<or> (\<exists>r. v = Fin r \<and> - 100 \<le> r \<and> r \<le> 100)"
    using tsi_value_range by (auto simp add: case_prod_beta)
  with c len show ?thesis by blast
qed

section \<open>Bars closed by the aggregator\<close>

text \<open>
  C6. Started in a state whose in-progress bar (if any) is ordered, the bot handles every
  sequence of ticks without raising, and afterwards every bar of the series that was not
  there before has its low at or below the smaller of open and close and its high at or above
  the larger; the in-progress bar is ordered again. Ticks without a price or with NaN are
  dropped, so this holds for all tick sequences, those with finite prices among them. The
  steps behind it are in \<open>on_tick_result\<close>: a new bar has open, high, low and close at the
  tick's price, and a tick in the same bucket sets high to the larger, low to the smaller, and
  close to the price.
\<close>

theorem closed_bars_ohlc:
  assumes "state_ok s" and "bar_start_time s \<noteq> None \<longrightarrow> current_ok (current_bar s)"
  shows "\<exists>s' evs. run s ticks = Inr (s', evs) \<and> state_ok s' \<and>
           (bar_start_time s' \<noteq> None \<longrightarrow> current_ok (current_bar s')) \<and>
           (\<forall>b \<in> set (bars_5min s'). b \<in> set (bars_5min s) \<or> ohlc_ok b)"
  using assms
proof (induction ticks arbitrary: s)
  case Nil
  then show ?case by simp
next
  case (Cons t ticks)
  obtain tk now exit_trade entry_trade where t: "t = (tk, now, exit_trade, entry_trade)"
    by (cases t) auto
  from on_tick_ohlc [OF Cons.prems, of tk now exit_trade entry_trade]
  obtain s1 ev1 where ot: "on_tick s tk now exit_trade entry_trade = Inr (s1, ev1)"
    and ok1: "state_ok s1"
    and c1: "bar_start_time s1 \<noteq> None \<longrightarrow> current_ok (current_bar s1)"
    and b1: "\<forall>b \<in> set (bars_5min s1). b \<in> set (bars_5min s) \<or> ohlc_ok b"
    by blast
  from Cons.IH [OF ok1 c1]
  obtain s2 ev2 where r: "run s1 ticks = Inr (s2, ev2)"
    and ok2: "state_ok s2"
    and c2: "bar_start_time s2 \<noteq> None \<longrightarrow> current_ok (current_bar s2)"
    and b2: "\<forall>b \<in> set (bars_5min s2). b \<in> set (bars_5min s1) \<or> ohlc_ok b"
    by blast
  have "run s (t # ticks) = Inr (s2, ev1 @ ev2)"
    by (simp add: t ot r)
  moreover have "\<forall>b \<in> set (bars_5min s2). b \<in> set (bars_5min s) \<or> ohlc_ok b"
    using b1 b2 by blast
  ultimately show ?case
    using ok2 c2 by blast
qed

theorem closed_bars_ohlc_witness:
  "state_ok short_bot \<and> current_ok (current_bar short_bot) \<and>
   (\<exists>s' evs. run short_bot
        [(tick_at 103, clock_0003, pending, pending),
         (tick_at 102, clock_0006, pending, pending)] = Inr (s', evs) \<and>
      bars_5min s' = [\<lparr>b_start = Some (get_bar_start_time clock_0003),
                        b_open = Fin 100, b_high = Fin 106, b_low = Fin 99,
                        b_close = Fin 103, b_volume = Fin 0\<rparr>] \<and>
      ohlc_ok \<lparr>b_start = Some (get_bar_start_time clock_0003),
                        b_open = Fin 100, b_high = Fin 106, b_low = Fin 99,
                        b_close = Fin 103, b_volume = Fin 0\<rparr>)"
proof -
  let ?ticks = "[(tick_at 103, clock_0003, pending, pending),
         (tick_at 102, clock_0006, pending, pending)]"
  have h1: "state_ok short_bot"
    by (simp add: state_ok_def example_defs)
  have c: "current_ok (current_bar short_bot)"
    by (simp add: current_ok_def example_defs)
  then have h2: "bar_start_time short_bot \<noteq> None \<longrightarrow> current_ok (current_bar short_bot)"
    by simp
  have b0: "bars_5min short_bot = []"
    by (simp add: example_defs)
  from closed_bars_ohlc [OF h1 h2, of ?ticks]
  obtain s' evs where r: "run short_bot ?ticks = Inr (s', evs)"
    and b: "\<forall>b \<in> set (bars_5min s'). b \<in> set (bars_5min short_bot) \<or> ohlc_ok b"
    by blast
  have "run short_bot ?ticks =
   Inr (short_bot\<lparr>bars_5min := [\<lparr>b_start = Some (get_bar_start_time clock_0003),
                                   b_open = Fin 100, b_high = Fin 106, b_low = Fin 99,
                                   b_close = Fin 103, b_volume = Fin 0\<rparr>],
                  bar_start_time := Some (get_bar_start_time clock_0006),
                  current_bar := \<lparr>cb_open = Some (Fin 102), cb_high = Some (Fin 102),
                                  cb_low = Some (Fin 102), cb_close = Some (Fin 102),
                                  cb_volume = Fin 0\<rparr>,
                  last_price := Some (Fin 102)\<rparr>, [EXIT_SHORT])"
    by (simp add: handler_defs example_defs)
  with r have bs: "bars_5min s' = [\<lparr>b_start = Some (get_bar_start_time clock_0003),
                        b_open = Fin 100, b_high = Fin 106, b_low = Fin 99,
                        b_close = Fin 103, b_volume = Fin 0\<rparr>]"
    by simp
  with b b0 have "ohlc_ok \<lparr>b_start = Some (get_bar_start_time clock_0003),
                        b_open = Fin 100, b_high = Fin 106, b_low = Fin 99,
                        b_close = Fin 103, b_volume = Fin 0\<rparr>"
    by simp
  with h1 c r bs show ?thesis by blast
qed

section \<open>The crossover tracker\<close>

text \<open>
  C8 as stated fails while the bot is in position: \<open>_check_entry_conditions\<close> returns before
  it touches the tracker. Starting flat with moving average 100, the tick at 101 sets the
  tracker, the tick at 99 crosses down and the order is filled, and the tick at 105, handled
  in position, leaves the tracker at False although 105 is strictly above 100.
\<close>

theorem tracker_stale_in_position:
  "run flat_bot
     [(tick_at 101, clock_0003, pending, pending),
      (tick_at 99, clock_0003, pending, filled_at 98),
      (tick_at 105, clock_0003, pending, pending)] =
   Inr (flat_bot\<lparr>bar_start_time := Some (get_bar_start_time clock_0003),
                  current_bar := \<lparr>cb_open = Some (Fin 101), cb_high = Some (Fin 105),
                                  cb_low = Some (Fin 99), cb_close = Some (Fin 105),
                                  cb_volume = Fin 0\<rparr>,
                  last_price := Some (Fin 105), price_was_above_ma := Some False,
                  in_position := True, position_entry_price := Some (Fin 98)\<rparr>,
        [ENTRY_SHORT (Fin 99)]) \<and>
   current_ma70 flat_bot = Some (Fin 100) \<and> fgt (Fin 105) (Fin 100)"
  by (simp add: handler_defs example_defs)

text \<open>
  C8, amended. The tracker is unset after construction and is never unset again. A tick
  whose entry check runs with the position flat (the bot is flat afterwards, or the check
  itself placed the entry order) and with moving average and oscillator set leaves the tracker
  at whether the tick's price is strictly above the moving average, whatever the signal and
  the order outcome; every other tick leaves the tracker as it was.
\<close>

theorem tracker_set_by_entry_check:
  assumes "state_ok s" and "tk_last tk = Some price" and "\<not> is_nan price"
  shows "price_was_above_ma bot_init = None \<and>
         (\<exists>s' evs. on_tick s tk now exit_trade entry_trade = Inr (s', evs) \<and>
            (if (\<not> in_position s' \<or> (\<exists>p. ENTRY_SHORT p \<in> set evs)) \<and>
                current_ma70 s' \<noteq> None \<and> current_tsi s' \<noteq> None
             then \<exists>ma. current_ma70 s' = Some ma \<and>
                    price_was_above_ma s' = Some (fgt price ma)
             else price_was_above_ma s' = price_was_above_ma s) \<and>
            (price_was_above_ma s \<noteq> None \<longrightarrow> price_was_above_ma s' \<noteq> None))"
proof -
  from on_tick_result [OF assms, of now exit_trade entry_trade]
  obtain s' ev1 ev2 pm em where ot: "on_tick s tk now exit_trade entry_trade = Inr (s', ev1 @ ev2)"
    and mid: "pm = in_position s \<and> em = position_entry_price s \<and>
              (ev1 = [] \<or> ev1 = [EXIT_SHORT]) \<or>
            (\<exists>entry. in_position s \<and> position_entry_price s = Some entry \<and>
               status exit_trade = ''Filled'' \<and> \<not> pm \<and> em = None \<and>
               ev1 = [EXIT_SHORT, PNL (fsub entry (avgFillPrice exit_trade))])"
    and fin: "in_position s' = pm \<and> position_entry_price s' = em \<and>
              (ev2 = [] \<or> ev2 = [ENTRY_SHORT price] \<and> status entry_trade \<noteq> ''Filled'' \<and>
                 \<not> pm) \<or>
            \<not> pm \<and> in_position s' \<and>
              position_entry_price s' = Some (avgFillPrice entry_trade) \<and>
              ev2 = [ENTRY_SHORT price] \<and> status entry_trade = ''Filled''"
    and tr: "price_was_above_ma s' =
             (if \<not> pm \<and> current_ma70 s' \<noteq> None \<and> current_tsi s' \<noteq> None
              then Some (fgt price (the (current_ma70 s'))) else price_was_above_ma s)"
    by blast
  have noentry: "\<forall>p. ENTRY_SHORT p \<notin> set ev1"
    using mid by auto
  have flat: "(\<not> in_position s' \<or> (\<exists>p. ENTRY_SHORT p \<in> set (ev1 @ ev2))) \<longleftrightarrow> \<not> pm"
    using fin noentry by auto
  have "if (\<not> in_position s' \<or> (\<exists>p. ENTRY_SHORT p \<in> set (ev1 @ ev2))) \<and>
                current_ma70 s' \<noteq> None \<and> current_tsi s' \<noteq> None
             then \<exists>ma. current_ma70 s' = Some ma \<and>
                    price_was_above_ma s' = Some (fgt price ma)
             else price_was_above_ma s' = price_was_above_ma s"
    unfolding flat using tr by auto
  moreover have "price_was_above_ma s \<noteq> None \<longrightarrow> price_was_above_ma s' \<noteq> None"
    using tr by (simp split: if_splits)
  moreover have "price_was_above_ma bot_init = None"
    by (simp add: bot_init_def)
  ultimately show ?thesis
    using ot by blast
qed

theorem tracker_set_by_entry_check_witness:
  "state_ok flat_bot \<and> tk_last (tick_at 101) = Some (Fin 101) \<and> \<not> is_nan (Fin 101) \<and>
   (\<exists>s' evs. on_tick flat_bot (tick_at 101) clock_0003 pending pending = Inr (s', evs) \<and>
      \<not> in_position s' \<and> current_ma70 s' = Some (Fin 100) \<and>
      price_was_above_ma s' = Some True)"
proof -
  have h: "state_ok flat_bot" "tk_last (tick_at 101) = Some (Fin 101)" "\<not> is_nan (Fin 101)"
    by (simp_all add: state_ok_def example_defs)
  from tracker_set_by_entry_check [OF h, of clock_0003 pending pending]
  obtain s' evs where ot: "on_tick flat_bot (tick_at 101) clock_0003 pending pending =
      Inr (s', evs)"
    and tr: "if (\<not> in_position s' \<or> (\<exists>p. ENTRY_SHORT p \<in> set evs)) \<and>
                current_ma70 s' \<noteq> None \<and> current_tsi s' \<noteq> None
             then \<exists>ma. current_ma70 s' = Some ma \<and>
                    price_was_above_ma s' = Some (fgt (Fin 101) ma)
             else price_was_above_ma s' = price_was_above_ma flat_bot"
    by blast
  have "on_tick flat_bot (tick_at 101) clock_0003 pending pending =
      Inr (flat_bot\<lparr>bar_start_time := Some (get_bar_start_time clock_0003),
                  current_bar := \<lparr>cb_open = Some (Fin 101), cb_high = Some (Fin 101),
                                  cb_low = Some (Fin 101), cb_close = Some (Fin 101),
                                  cb_volume = Fin 0\<rparr>,
                  last_price := Some (Fin 101), price_was_above_ma := Some True\<rparr>, [])"
    by (simp add: handler_defs example_defs)
  with ot have f: "\<not> in_position s'" "current_ma70 s' = Some (Fin 100)"
    "current_tsi s' = Some (Fin (- 12))"
    by (auto simp add: example_defs)
  with tr have "price_was_above_ma s' = Some True"
    by (simp add: fgt_def)
  with h ot f show ?thesis by blast
qed

section \<open>The volume of a bar\<close>

text \<open>
  C9 as stated fails: no handler assigns the volume of the in-progress bar after it was
  opened with 0. Two ticks fall into the bar that starts at 00:00, the tick at 00:06 closes it,
  and the bar is appended with volume 0.
\<close>

theorem volume_stays_zero:
  "run bot_init
     [(tick_at 100, clock_0003, pending, pending),
      (tick_at 101, clock_0003, pending, pending),
      (tick_at 102, clock_0006, pending, pending)] =
   Inr (bot_init\<lparr>bars_5min := [\<lparr>b_start = Some (get_bar_start_time clock_0003),
                                   b_open = Fin 100, b_high = Fin 101, b_low = Fin 100,
                                   b_close = Fin 101, b_volume = Fin 0\<rparr>],
                  bar_start_time := Some (get_bar_start_time clock_0006),
                  current_bar := \<lparr>cb_open = Some (Fin 102), cb_high = Some (Fin 102),
                                  cb_low = Some (Fin 102), cb_close = Some (Fin 102),
                                  cb_volume = Fin 0\<rparr>,
                  last_price := Some (Fin 102)\<rparr>, [])"
  by (simp add: handler_defs example_defs)

text \<open>
  C9, amended. A tick that opens a bar sets its volume to 0; every other tick leaves the
  volume of the in-progress bar as it was (a tick within the bar's boundary changes high, low
  and close only); and a bar that is appended to the series carries the volume the
  in-progress bar had. So every bar the aggregator opened is closed with volume 0.
\<close>

theorem volume_never_updated:
  assumes "state_ok s"
  shows "\<exists>s' evs. on_tick s tk now exit_trade entry_trade = Inr (s', evs) \<and>
           cb_volume (current_bar s') =
             (if tk_last tk \<noteq> None \<and> tk_last tk \<noteq> Some NaN \<and>
                 bar_start_time s \<noteq> Some (get_bar_start_time now)
              then Fin 0 else cb_volume (current_bar s)) \<and>
           (\<forall>b \<in> set (bars_5min s'). b \<in> set (bars_5min s) \<or>
              b_volume b = cb_volume (current_bar s))"
proof (cases "tk_last tk = None \<or> tk_last tk = Some NaN")
  case True
  then have "on_tick s tk now exit_trade entry_trade = Inr (s, [])"
    by (rule on_tick_dropped)
  then show ?thesis
    using True by auto
next
  case False
  then obtain price where pr: "tk_last tk = Some price" "\<not> is_nan price"
    by (cases "tk_last tk") (auto simp add: is_nan_iff)
  from on_tick_result [OF assms pr, of now exit_trade entry_trade]
  obtain s' ev1 ev2 where ot: "on_tick s tk now exit_trade entry_trade = Inr (s', ev1 @ ev2)"
    and cur: "if bar_start_time s = Some (get_bar_start_time now)
            then (\<exists>hi lo. cb_high (current_bar s) = Some hi \<and>
                    cb_low (current_bar s) = Some lo \<and>
                    current_bar s' = (current_bar s)\<lparr>cb_high := Some (pymax2 hi price),
                       cb_low := Some (pymin2 lo price), cb_close := Some price\<rparr>)
            else current_bar s' = \<lparr>cb_open = Some price, cb_high = Some price,
                       cb_low = Some price, cb_close = Some price, cb_volume = Fin 0\<rparr>"
    and bars: "bars_5min s' = bars_5min s \<and> ev1 = [] \<or>
            bar_start_time s \<noteq> None \<and> bar_start_time s \<noteq> Some (get_bar_start_time now) \<and>
            bars_5min s' \<noteq> [] \<and>
            Some (b_open (last (bars_5min s'))) = cb_open (current_bar s) \<and>
            Some (b_high (last (bars_5min s'))) = cb_high (current_bar s) \<and>
            Some (b_low (last (bars_5min s'))) = cb_low (current_bar s) \<and>
            Some (b_close (last (bars_5min s'))) = cb_close (current_bar s) \<and>
            b_volume (last (bars_5min s')) = cb_volume (current_bar s) \<and>
            b_start (last (bars_5min s')) = bar_start_time s \<and>
            set (bars_5min s') \<subseteq> insert (last (bars_5min s')) (set (bars_5min s))"
    by blast
  have v: "cb_volume (current_bar s') =
             (if bar_start_time s \<noteq> Some (get_bar_start_time now)
              then Fin 0 else cb_volume (current_bar s))"
    using cur by (auto split: if_splits)
  have b: "\<forall>b \<in> set (bars_5min s'). b \<in> set (bars_5min s) \<or>
              b_volume b = cb_volume (current_bar s)"
    using bars by auto
  show ?thesis
    using ot v b False by auto
qed

theorem volume_never_updated_witness:
  "state_ok short_bot \<and>
   (\<exists>s' evs. on_tick short_bot (tick_at 107) clock_0003 pending pending = Inr (s', evs) \<and>
      cb_high (current_bar s') = Some (Fin 107) \<and> cb_close (current_bar s') = Some (Fin 107) \<and>
      cb_volume (current_bar s') = Fin 0)"
proof -
  have h: "state_ok short_bot"
    by (simp add: state_ok_def example_defs)
  from volume_never_updated [OF h, of "tick_at 107" clock_0003 pending pending]
  obtain s' evs where ot: "on_tick short_bot (tick_at 107) clock_0003 pending pending =
      Inr (s', evs)"
    and v: "cb_volume (current_bar s') =
             (if tk_last (tick_at 107) \<noteq> None \<and> tk_last (tick_at 107) \<noteq> Some NaN \<and>
                 bar_start_time short_bot \<noteq> Some (get_bar_start_time clock_0003)
              then Fin 0 else cb_volume (current_bar short_bot))"
    by blast
  have v0: "cb_volume (current_bar s') = Fin 0"
    using v by (simp add: example_defs)
  have "on_tick short_bot (tick_at 107) clock_0003 pending pending =
      Inr (short_bot\<lparr>current_bar := \<lparr>cb_open = Some (Fin 100), cb_high = Some (Fin 107),
                                  cb_low = Some (Fin 99), cb_close = Some (Fin 107),
                                  cb_volume = Fin 0\<rparr>,
                  last_price := Some (Fin 107)\<rparr>, [])"
    by (simp add: handler_defs example_defs)
  with ot have "cb_high (current_bar s') = Some (Fin 107)"
    "cb_close (current_bar s') = Some (Fin 107)"
    by auto
  with h ot v0 show ?thesis by blast
qed

section \<open>Position and entry price\<close>

text \<open>
  C10. \<open>coupled fill s\<close> says that the entry price is None while the bot is flat and is
  \<open>fill\<close>, the average fill price reported for the entry order, while it is in position. It
  holds after construction, and \<open>_on_tick\<close> keeps it: when the tick places an entry order that
  is reported as filled, it holds for that order's average fill price, and in every other case
  (no order, orders not filled, an exit that is filled) for the price it held for before.
  The same is shown for a bar close, for \<open>_enter_short\<close> and for \<open>_exit_short\<close> on their own.
\<close>

theorem position_price_coupling:
  assumes "state_ok s" and "coupled fill s"
  shows "coupled fill bot_init \<and>
         (\<exists>s' evs. on_tick s tk now exit_trade entry_trade = Inr (s', evs) \<and> state_ok s' \<and>
            coupled (if status entry_trade = ''Filled'' \<and> (\<exists>p. ENTRY_SHORT p \<in> set evs)
                     then avgFillPrice entry_trade else fill) s') \<and>
         (bar_start_time s \<noteq> None \<longrightarrow>
            (\<exists>s' evs. close_bar s exit_trade = Inr (s', evs) \<and> coupled fill s')) \<and>
         coupled (if status entry_trade = ''Filled'' then avgFillPrice entry_trade else fill)
           (fst (enter_short s price entry_trade)) \<and>
         (in_position s \<longrightarrow>
            (\<exists>s' evs. exit_short s exit_trade = Inr (s', evs) \<and> coupled fill s'))"
proof -
  have init: "coupled fill bot_init"
    by (simp add: coupled_def bot_init_def)
  from on_tick_state_ok [OF assms(1), of tk now exit_trade entry_trade]
  obtain s1 evs1 where o1: "on_tick s tk now exit_trade entry_trade = Inr (s1, evs1)"
    and ok: "state_ok s1"
    by blast
  from on_tick_coupled [OF assms, of tk now exit_trade entry_trade] o1
  have tick: "\<exists>s' evs. on_tick s tk now exit_trade entry_trade = Inr (s', evs) \<and> state_ok s' \<and>
            coupled (if status entry_trade = ''Filled'' \<and> (\<exists>p. ENTRY_SHORT p \<in> set evs)
                     then avgFillPrice entry_trade else fill) s'"
    using ok by auto
  have bar: "bar_start_time s \<noteq> None \<longrightarrow>
            (\<exists>s' evs. close_bar s exit_trade = Inr (s', evs) \<and> coupled fill s')"
    using close_bar_coupled [OF assms] by blast
  have enter: "coupled (if status entry_trade = ''Filled'' then avgFillPrice entry_trade else fill)
           (fst (enter_short s price entry_trade))"
    using assms(2) by (simp add: enter_short_def coupled_def)
  have exit: "in_position s \<longrightarrow>
            (\<exists>s' evs. exit_short s exit_trade = Inr (s', evs) \<and> coupled fill s')"
    using assms(2) by (auto simp add: exit_short_def coupled_def split: if_splits)
  from init tick bar enter exit show ?thesis by blast
qed

theorem position_price_coupling_witness:
  "state_ok (flat_bot\<lparr>price_was_above_ma := Some True\<rparr>) \<and>
   coupled (Fin 0) (flat_bot\<lparr>price_was_above_ma := Some True\<rparr>) \<and>
   (\<exists>s'. on_tick (flat_bot\<lparr>price_was_above_ma := Some True\<rparr>) (tick_at 99) clock_0003 pending
          (filled_at 98) = Inr (s', [ENTRY_SHORT (Fin 99)]) \<and>
      in_position s' \<and> position_entry_price s' = Some (Fin 98))"
proof -
  let ?s = "flat_bot\<lparr>price_was_above_ma := Some True\<rparr>"
  have h: "state_ok ?s" "coupled (Fin 0) ?s"
    by (simp_all add: state_ok_def coupled_def example_defs)
  from position_price_coupling [OF h, of "tick_at 99" clock_0003 pending "filled_at 98"]
  obtain s' evs where ot: "on_tick ?s (tick_at 99) clock_0003 pending (filled_at 98) =
      Inr (s', evs)"
    and c: "coupled (if status (filled_at 98) = ''Filled'' \<and> (\<exists>p. ENTRY_SHORT p \<in> set evs)
                     then avgFillPrice (filled_at 98) else Fin 0) s'"
    by blast
  have "on_tick ?s (tick_at 99) clock_0003 pending (filled_at 98) =
      Inr (?s\<lparr>bar_start_time := Some (get_bar_start_time clock_0003),
               current_bar := \<lparr>cb_open = Some (Fin 99), cb_high = Some (Fin 99),
                               cb_low = Some (Fin 99), cb_close = Some (Fin 99),
                               cb_volume = Fin 0\<rparr>,
               last_price := Some (Fin 99), price_was_above_ma := Some False,
               in_position := True, position_entry_price := Some (Fin 98)\<rparr>,
           [ENTRY_SHORT (Fin 99)])"
    by (simp add: handler_defs example_defs)
  with ot have e: "evs = [ENTRY_SHORT (Fin 99)]" "in_position s'"
    by auto
  with c have "position_entry_price s' = Some (Fin 98)"
    by (simp add: coupled_def filled_at_def)
  with h ot e show ?thesis by blast
qed

end
